theory Spec2Isabelle
  imports Complex_Main "HOL-Library.Sublist" "HOL-Library.Multiset" "HOL-Library.Product_Lexorder"
begin

section \<open>Text\<close>

text \<open>
  A Python \<open>str\<close> is modelled as a \<open>string\<close> whose characters are the code points
  0 to 255 (Latin-1), which covers every character the patterns of \<open>app.py\<close> name
  (a with a grave accent is \<open>CHR 0xE0\<close>). On this range \<open>\d\<close> matches the ASCII digits only,
  \<open>\s\<close> and \<open>str.strip\<close> use the same set of white space, and \<open>str.lower\<close>
  works character by character.
\<close>

definition is_digit :: "char \<Rightarrow> bool" where
  "is_digit c = (let n = of_char c :: nat in 48 \<le> n \<and> n \<le> 57)"

definition is_space :: "char \<Rightarrow> bool" where
  "is_space c = (let n = of_char c :: nat in
     (9 \<le> n \<and> n \<le> 13) \<or> (28 \<le> n \<and> n \<le> 32) \<or> n = 0x85 \<or> n = 0xA0)"

definition lower_char :: "char \<Rightarrow> char" where
  "lower_char c = (let n = of_char c :: nat in
     if (65 \<le> n \<and> n \<le> 90) \<or> (192 \<le> n \<and> n \<le> 222 \<and> n \<noteq> 215)
     then char_of (n + 32) else c)"

definition lower :: "string \<Rightarrow> string" where
  "lower s = map lower_char s"

definition strip :: "string \<Rightarrow> string" where
  "strip s = rev (dropWhile is_space (rev (dropWhile is_space s)))"

definition replace_char :: "char \<Rightarrow> char \<Rightarrow> string \<Rightarrow> string" where
  "replace_char a b s = map (\<lambda>c. if c = a then b else c) s"

definition digit_val :: "char \<Rightarrow> nat" where
  "digit_val c = of_char c - 48"

definition nat_of_digits :: "string \<Rightarrow> nat" where
  "nat_of_digits ds = foldl (\<lambda>a c. 10 * a + digit_val c) 0 ds"

text \<open>
  Python floats are modelled by rational numbers: \<open>float\<close> of a decimal literal is the
  exact value of the literal. Rounding to the nearest double and overflow to infinity are
  not modelled.
\<close>

definition decimal_value :: "string \<Rightarrow> string \<Rightarrow> rat" where
  "decimal_value ip fp = of_nat (nat_of_digits ip) + of_nat (nat_of_digits fp) / 10 ^ length fp"

text \<open>
  \<open>float(s)\<close> on the literals \<open>digits\<close>, \<open>digits.\<close>, \<open>digits.digits\<close> and
  \<open>.digits\<close>; \<open>None\<close> stands for \<open>ValueError\<close>. \<open>extract_price\<close> calls it on a
  match of \<open>\d+\.?\d*\<close> only, so the other literals of \<open>float\<close> (sign, exponent,
  underscores, surrounding white space, \<open>inf\<close>, \<open>nan\<close>) never reach it. The rating of
  a search result is any string; for it \<open>float\<close> is modelled in full, as \<open>float_str\<close>.
\<close>

definition py_float :: "string \<Rightarrow> rat option" where
  "py_float s =
     (let ip = takeWhile is_digit s; r = dropWhile is_digit s
      in case r of
           [] \<Rightarrow> if ip = [] then None else Some (decimal_value ip [])
         | c # fp \<Rightarrow>
             if c = CHR ''.'' \<and> list_all is_digit fp \<and> (ip \<noteq> [] \<or> fp \<noteq> [])
             then Some (decimal_value ip fp) else None)"

section \<open>Regular expressions\<close>

text \<open>
  The constructs the patterns of \<open>app.py\<close> use, with the backtracking order of
  Python's \<open>re\<close>: \<open>matches r st\<close> lists every way \<open>r\<close> matches at the front of the text,
  preferred first. Repetition is over a character class, as in every pattern of the
  source (\<open>\s+\<close>, \<open>\s*\<close>, \<open>\d+\<close>, \<open>\d*\<close>, \<open>.+?\<close>). A state is the list of the groups
  closed so far and the text still to read; no pattern has a group inside a repetition,
  so the k-th element of the list is \<open>group(k)\<close>.
\<close>

datatype re =
    Lit string
  | Cls "char \<Rightarrow> bool"
  | Opt re
  | Star "char \<Rightarrow> bool"
  | Plus "char \<Rightarrow> bool"
  | PlusLazy "char \<Rightarrow> bool"
  | Grp re
  | Seq re re
  | Alt re re
  | Eos

fun star_greedy :: "(char \<Rightarrow> bool) \<Rightarrow> string \<Rightarrow> string list" where
  "star_greedy P [] = [[]]"
| "star_greedy P (c # cs) = (if P c then star_greedy P cs @ [c # cs] else [c # cs])"

fun star_lazy :: "(char \<Rightarrow> bool) \<Rightarrow> string \<Rightarrow> string list" where
  "star_lazy P [] = [[]]"
| "star_lazy P (c # cs) = (c # cs) # (if P c then star_lazy P cs else [])"

type_synonym mstate = "string list \<times> string"

fun matches :: "re \<Rightarrow> mstate \<Rightarrow> mstate list" where
  "matches (Lit w) (g, s) = (if prefix w s then [(g, drop (length w) s)] else [])"
| "matches (Cls P) (g, s) = (case s of [] \<Rightarrow> [] | c # cs \<Rightarrow> if P c then [(g, cs)] else [])"
| "matches (Opt r) (g, s) = matches r (g, s) @ [(g, s)]"
| "matches (Star P) (g, s) = map (Pair g) (star_greedy P s)"
| "matches (Plus P) (g, s) =
     (case s of [] \<Rightarrow> [] | c # cs \<Rightarrow> if P c then map (Pair g) (star_greedy P cs) else [])"
| "matches (PlusLazy P) (g, s) =
     (case s of [] \<Rightarrow> [] | c # cs \<Rightarrow> if P c then map (Pair g) (star_lazy P cs) else [])"
| "matches (Grp r) (g, s) =
     map (\<lambda>(g', s'). (g' @ [take (length s - length s') s], s')) (matches r (g, s))"
| "matches (Seq a b) st = concat (map (matches b) (matches a st))"
| "matches (Alt a b) st = matches a st @ matches b st"
| "matches Eos (g, s) = (if s = [] \<or> s = [CHR 0x0A] then [(g, s)] else [])"

record rmatch =
  whole :: string
  groups :: "string list"
  rest :: string

definition match_at :: "re \<Rightarrow> string \<Rightarrow> rmatch option" where
  "match_at r s =
     (case matches r ([], s) of
        [] \<Rightarrow> None
      | (g, s') # _ \<Rightarrow> Some \<lparr>whole = take (length s - length s') s, groups = g, rest = s'\<rparr>)"

text \<open>\<open>re.search\<close>: the match at the leftmost position that has one.\<close>

fun re_search :: "re \<Rightarrow> string \<Rightarrow> rmatch option" where
  "re_search r [] = match_at r []"
| "re_search r (c # cs) =
     (case match_at r (c # cs) of Some x \<Rightarrow> Some x | None \<Rightarrow> re_search r cs)"

text \<open>
  \<open>re.findall\<close> for a pattern without groups: the texts of the successive matches. After
  an empty match at the very start the scan moves on by one character; the one pattern
  given to \<open>findall\<close> never matches the empty text.
\<close>

function findall :: "re \<Rightarrow> string \<Rightarrow> string list" where
  "findall r s =
     (case re_search r s of
        None \<Rightarrow> []
      | Some x \<Rightarrow>
          whole x #
          (if length (rest x) < length s then findall r (rest x)
           else (case s of [] \<Rightarrow> [] | _ # t \<Rightarrow> findall r t)))"
  by pat_completeness auto
termination
  by (relation "measure (\<lambda>(r, s). length s)") auto

declare findall.simps [simp del]

text \<open>\<open>re.sub(cls, repl, s)\<close> for a pattern that is one character class.\<close>

definition re_sub_cls :: "(char \<Rightarrow> bool) \<Rightarrow> string \<Rightarrow> string \<Rightarrow> string" where
  "re_sub_cls P repl s = concat (map (\<lambda>c. if P c then repl else [c]) s)"

section \<open>Price and field normalizers\<close>

text \<open>
  A heterogeneous field of a search result as \<open>extract_price\<close> and
  \<open>format_delivery\<close> take it: \<open>None\<close>, a string, or a list of strings. Of a list
  \<open>extract_price\<close> reads \<open>str(price_str[0])\<close> only; an element that is not a string
  is given by its \<open>str()\<close> text.
\<close>

datatype pyval = PNone | PStr string | PList "string list"

fun truthy :: "pyval \<Rightarrow> bool" where
  "truthy PNone = False"
| "truthy (PStr s) = (s \<noteq> [])"
| "truthy (PList l) = (l \<noteq> [])"

text \<open>
  The text that reaches \<open>re.sub\<close> in \<open>extract_price\<close>: the first element of a list
  (\<open>"0"\<close> for an empty one), then \<open>str()\<close>.
\<close>

fun price_text :: "pyval \<Rightarrow> string" where
  "price_text PNone = ''None''"
| "price_text (PStr s) = s"
| "price_text (PList l) = (case l of [] \<Rightarrow> ''0'' | x # _ \<Rightarrow> x)"

definition not_price_char :: "char \<Rightarrow> bool" where
  "not_price_char c = (\<not> (is_digit c \<or> c = CHR ''.'' \<or> c = CHR '',''))"

definition price_re :: re where
  "price_re = Seq (Plus is_digit) (Seq (Opt (Lit ''.'')) (Star is_digit))"

definition extract_price :: "pyval \<Rightarrow> rat" where
  "extract_price price_str =
     (if \<not> truthy price_str then 0
      else
        let price_clean = re_sub_cls not_price_char [] (price_text price_str);
            price_clean = replace_char (CHR '','') (CHR ''.'') price_clean;
            numbers = findall price_re price_clean
        in case numbers of
             [] \<Rightarrow> 0
           | n # _ \<Rightarrow> (case py_float n of Some v \<Rightarrow> v | None \<Rightarrow> 0))"

definition format_delivery :: "pyval \<Rightarrow> string" where
  "format_delivery delivery_info =
     (if \<not> truthy delivery_info then ''Standard''
      else case delivery_info of
             PList l \<Rightarrow> (case l of [] \<Rightarrow> ''Standard'' | x # _ \<Rightarrow> take 30 x)
           | PStr s \<Rightarrow> take 30 s
           | PNone \<Rightarrow> take 30 ''None'')"

text \<open>Two parts of \<open>price_re\<close>, named for the proofs.\<close>

definition frac_re :: re where
  "frac_re = Seq (Opt (Lit ''.'')) (Star is_digit)"

definition after_frac :: "string \<Rightarrow> string" where
  "after_frac u =
     (case u of [] \<Rightarrow> []
      | c # cs \<Rightarrow> if c = CHR ''.'' then dropWhile is_digit cs else dropWhile is_digit (c # cs))"

section \<open>Intent detector\<close>

text \<open>
  A conversation turn is a dictionary with string values
  (\<open>{"role": ..., "content": ...}\<close>).
\<close>

type_synonym turn = "string \<Rightarrow> string option"

record intent =
  query :: string
  min_price :: rat
  max_price :: rat

definition not_newline :: "char \<Rightarrow> bool" where
  "not_newline c = (c \<noteq> CHR 0x0A)"

text \<open>\<open>(?:\s+entre|\s+dans|\s+\<close>a-grave\<open>|\s+pour|\.|$)\<close>\<close>

definition stop_re :: re where
  "stop_re =
     Alt (Seq (Plus is_space) (Lit ''entre''))
    (Alt (Seq (Plus is_space) (Lit ''dans''))
    (Alt (Seq (Plus is_space) (Lit [CHR 0xE0]))
    (Alt (Seq (Plus is_space) (Lit ''pour''))
    (Alt (Lit ''.'') Eos))))"

text \<open>\<open>\s+(.+?)\<close> followed by the alternation, the common tail of the three patterns.\<close>

definition tail_re :: re where
  "tail_re = Seq (Plus is_space) (Seq (Grp (PlusLazy not_newline)) stop_re)"

text \<open>\<open>cherchons?\<close>, \<open>recherche\<close>, \<open>regardons?\<close>, each followed by the tail.\<close>

definition cherchons_re :: re where
  "cherchons_re = Seq (Lit ''cherchon'') (Seq (Opt (Lit ''s'')) tail_re)"

definition recherche_re :: re where
  "recherche_re = Seq (Lit ''recherche'') tail_re"

definition regardons_re :: re where
  "regardons_re = Seq (Lit ''regardon'') (Seq (Opt (Lit ''s'')) tail_re)"

definition search_patterns :: "re list" where
  "search_patterns = [cherchons_re, recherche_re, regardons_re]"

text \<open>\<open>entre\s+(\d+)\s*(?:et|\<close>a-grave\<open>|-)\s*(\d+)\<close>\<close>

definition budget_re :: re where
  "budget_re =
     Seq (Lit ''entre'') (Seq (Plus is_space) (Seq (Grp (Plus is_digit))
    (Seq (Star is_space) (Seq (Alt (Lit ''et'') (Alt (Lit [CHR 0xE0]) (Lit ''-'')))
    (Seq (Star is_space) (Grp (Plus is_digit)))))))"

text \<open>
  \<open>match.group(k)\<close> for \<open>k \<ge> 1\<close>. Every group of the patterns above takes part in every
  match, so the empty default is never returned.
\<close>

definition group :: "rmatch \<Rightarrow> nat \<Rightarrow> string" where
  "group x k = (case drop (k - 1) (groups x) of [] \<Rightarrow> [] | g # _ \<Rightarrow> g)"

text \<open>\<open>float(s)\<close> for a text matched by \<open>\d+\<close>; it never raises.\<close>

definition float_digits :: "string \<Rightarrow> rat" where
  "float_digits s = of_nat (nat_of_digits s)"

fun first_intent :: "re list \<Rightarrow> string \<Rightarrow> intent option" where
  "first_intent [] last_message = None"
| "first_intent (pattern # ps) last_message =
     (case re_search pattern (lower last_message) of
        Some mt \<Rightarrow>
          let budget_match = re_search budget_re (lower last_message)
          in Some \<lparr>query = strip (group mt 1),
                   min_price = (case budget_match of Some b \<Rightarrow> float_digits (group b 1) | None \<Rightarrow> 0),
                   max_price = (case budget_match of Some b \<Rightarrow> float_digits (group b 2) | None \<Rightarrow> 1000)\<rparr>
      | None \<Rightarrow> first_intent ps last_message)"

text \<open>\<open>turn.get('content', '')\<close>\<close>

definition content_of :: "turn \<Rightarrow> string" where
  "content_of t = (case t ''content'' of None \<Rightarrow> [] | Some c \<Rightarrow> c)"

definition extract_search_intent :: "turn list \<Rightarrow> intent option" where
  "extract_search_intent conversation_history =
     (if conversation_history = [] then None
      else
        let last_message = content_of (last conversation_history)
        in first_intent search_patterns last_message)"

text \<open>
  For the statement of the properties: the text begins with one of the four words that
  end the query after white space.
\<close>

definition stop_word_at :: "string \<Rightarrow> bool" where
  "stop_word_at u =
     (prefix ''entre'' u \<or> prefix ''dans'' u \<or> prefix [CHR 0xE0] u \<or> prefix ''pour'' u)"

text \<open>
  The same for every white space character of a text and what follows it, as a function
  that can be run: no white space is followed by a stop word.
\<close>

fun no_stop_after_space :: "string \<Rightarrow> bool" where
  "no_stop_after_space [] = True"
| "no_stop_after_space (c # b) = ((is_space c \<longrightarrow> \<not> stop_word_at b) \<and> no_stop_after_space b)"

section \<open>Product search\<close>

text \<open>
  The response of the search API, as the code reads it: an object whose
  \<open>organic_results\<close>, when present, is a list of objects with optional fields. The two
  price fields are \<open>None\<close>, a string or a list; \<open>rating\<close> and \<open>ratings_total\<close> are a
  JSON number, which is rational, or a string.
\<close>

datatype num_or_str = Num rat | Str string

record organic_result =
  r_title :: "string option"
  r_price_str :: "pyval option"
  r_price :: "pyval option"
  r_rating :: "num_or_str option"
  r_ratings_total :: "num_or_str option"
  r_link :: "string option"
  r_snippet :: "string option"
  r_image :: "string option"
  r_delivery :: "pyval option"
  r_prime :: "bool option"

record search_data =
  organic_results :: "organic_result list option"

record search_params =
  p_engine :: string
  p_amazon_domain :: string
  p_api_key :: string
  p_k :: string
  p_s :: string
  p_num :: int

text \<open>
  What \<open>requests.get\<close> does: it raises, or it returns a response with a status code and a
  body, which \<open>response.json()\<close> parses (\<open>None\<close>: the body is not JSON).
\<close>

datatype http_result = RequestRaises string | Response nat "search_data option"

datatype exn = RequestException string | HTTPError nat | JSONDecodeError | ValueError

text \<open>
  A number as the rating holds it: \<open>float\<close> of a string can be infinite or NaN. NaN is
  equal to nothing and smaller than nothing; two ratings are never the same object, so
  the identity shortcut of the comparison does not apply to them.
\<close>

datatype pynum = Fin rat | PosInf | NegInf | NaN

fun num_lt :: "pynum \<Rightarrow> pynum \<Rightarrow> bool" where
  "num_lt NaN _ = False"
| "num_lt _ NaN = False"
| "num_lt (Fin a) (Fin b) = (a < b)"
| "num_lt NegInf NegInf = False"
| "num_lt NegInf _ = True"
| "num_lt _ NegInf = False"
| "num_lt PosInf _ = False"
| "num_lt _ PosInf = True"

fun num_eq :: "pynum \<Rightarrow> pynum \<Rightarrow> bool" where
  "num_eq NaN _ = False"
| "num_eq _ NaN = False"
| "num_eq a b = (a = b)"

fun negate :: "pynum \<Rightarrow> pynum" where
  "negate (Fin r) = Fin (- r)"
| "negate PosInf = NegInf"
| "negate NegInf = PosInf"
| "negate NaN = NaN"

text \<open>\<open>str.split()\<close> with no argument: the maximal runs of characters that are not white space.\<close>

function py_split :: "string \<Rightarrow> string list" where
  "py_split s =
     (case dropWhile is_space s of
        [] \<Rightarrow> []
      | c # cs \<Rightarrow> (c # takeWhile (\<lambda>x. \<not> is_space x) cs)
                 # py_split (dropWhile (\<lambda>x. \<not> is_space x) cs))"
  by pat_completeness auto
termination
proof (relation "measure length")
  show "wf (measure length)" by simp
next
  fix s :: string and c cs
  assume a: "dropWhile is_space s = c # cs"
  have "length (dropWhile (\<lambda>x. \<not> is_space x) cs) \<le> length cs"
    by (rule length_dropWhile_le)
  moreover have "length (c # cs) \<le> length s"
    using length_dropWhile_le[of is_space s] a by simp
  ultimately show "(dropWhile (\<lambda>x. \<not> is_space x) cs, s) \<in> measure length"
    by simp
qed

declare py_split.simps [simp del]

text \<open>
  \<open>float(s)\<close> for any string. An underscore must stand between two digits; the white
  space that \<open>float\<close> strips at both ends is the ASCII white space and, of Latin-1, the
  characters 0x85 and 0xA0; then come an optional sign and \<open>inf\<close>, \<open>infinity\<close>, \<open>nan\<close>
  in any case, or a decimal literal with an optional exponent. \<open>None\<close> stands for
  \<open>ValueError\<close>. The value of a literal is exact.
\<close>

definition float_space :: "char \<Rightarrow> bool" where
  "float_space c = (let n = of_char c :: nat in (9 \<le> n \<and> n \<le> 13) \<or> n = 32 \<or> n = 0x85 \<or> n = 0xA0)"

fun underscores_ok :: "char \<Rightarrow> string \<Rightarrow> bool" where
  "underscores_ok prev [] = (prev \<noteq> CHR ''_'')"
| "underscores_ok prev (c # cs) =
     ((if c = CHR ''_'' then is_digit prev else (prev = CHR ''_'' \<longrightarrow> is_digit c))
      \<and> underscores_ok c cs)"

definition float_exponent :: "string \<Rightarrow> int option" where
  "float_exponent e =
     (case e of
        [] \<Rightarrow> Some 0
      | c # r \<Rightarrow>
          if c = CHR ''e'' \<or> c = CHR ''E'' then
            (let sg = (case r of [] \<Rightarrow> 1 | d # _ \<Rightarrow> if d = CHR ''-'' then - 1 else (1::int));
                 ds = (case r of [] \<Rightarrow> [] | d # r' \<Rightarrow> if d = CHR ''-'' \<or> d = CHR ''+'' then r' else r)
             in if ds \<noteq> [] \<and> list_all is_digit ds then Some (sg * int (nat_of_digits ds)) else None)
          else None)"

definition float_decimal :: "string \<Rightarrow> pynum option" where
  "float_decimal w =
     (let ip = takeWhile is_digit w;
          r1 = dropWhile is_digit w;
          fp = (case r1 of [] \<Rightarrow> [] | c # r \<Rightarrow> if c = CHR ''.'' then takeWhile is_digit r else []);
          r2 = (case r1 of [] \<Rightarrow> [] | c # r \<Rightarrow> if c = CHR ''.'' then dropWhile is_digit r else r1)
      in if ip = [] \<and> fp = [] then None
         else case float_exponent r2 of
                None \<Rightarrow> None
              | Some k \<Rightarrow>
                  Some (Fin (if 0 \<le> k then decimal_value ip fp * 10 ^ nat k
                             else decimal_value ip fp / 10 ^ nat (- k))))"

definition float_abs :: "string \<Rightarrow> pynum option" where
  "float_abs w =
     (if lower w = ''inf'' \<or> lower w = ''infinity'' then Some PosInf
      else if lower w = ''nan'' then Some NaN
      else float_decimal w)"

definition float_str :: "string \<Rightarrow> pynum option" where
  "float_str t =
     (if \<not> underscores_ok (CHR 0x00) t then None
      else
        let u = filter (\<lambda>c. c \<noteq> CHR ''_'') t;
            v = rev (dropWhile float_space (rev (dropWhile float_space u)))
        in case v of
             [] \<Rightarrow> None
           | c # cs \<Rightarrow>
               if c = CHR ''-'' then map_option negate (float_abs cs)
               else if c = CHR ''+'' then float_abs cs
               else float_abs v)"

text \<open>
  Lines 118 to 123: a rating that is a string goes through \<open>float(rating.split()[0])\<close>
  under \<open>try ... except: rating = 0\<close>; an empty \<open>split()\<close> raises \<open>IndexError\<close>,
  which the same \<open>except\<close> catches.
\<close>

definition parse_rating :: "num_or_str \<Rightarrow> pynum" where
  "parse_rating rating =
     (case rating of
        Num r \<Rightarrow> Fin r
      | Str t \<Rightarrow> (case py_split t of
                    [] \<Rightarrow> Fin 0
                  | tok # _ \<Rightarrow> (case float_str tok of Some v \<Rightarrow> v | None \<Rightarrow> Fin 0)))"

text \<open>
  Lines 125 to 127: \<open>int(re.sub(r'[^\d]', '', reviews_count) or 0)\<close>, with no \<open>try\<close>
  around it. \<open>int\<close> raises \<open>ValueError\<close> for a string of more than 4300 digits, the
  default limit of Python on the conversion of a decimal string.
\<close>

definition int_max_str_digits :: nat where
  "int_max_str_digits = 4300"

definition parse_reviews :: "num_or_str \<Rightarrow> exn + rat" where
  "parse_reviews reviews_count =
     (case reviews_count of
        Num r \<Rightarrow> Inr r
      | Str t \<Rightarrow> (let ds = re_sub_cls (\<lambda>c. \<not> is_digit c) [] t
                  in if ds = [] then Inr 0
                     else if length ds > int_max_str_digits then Inl ValueError
                     else Inr (of_nat (nat_of_digits ds))))"

text \<open>
  The text \<open>f"${price_val:.2f}"\<close> is kept symbolic, as \<open>Dollars price_val\<close>;
  \<open>Unavailable\<close> is the fixed text \<open>"Prix non disponible"\<close>.
\<close>

datatype price_label = Dollars rat | Unavailable

record product =
  title :: string
  price :: rat
  price_str :: price_label
  rating :: pynum
  reviews_count :: rat
  link :: string
  description :: string
  image :: string
  delivery :: pyval
  prime :: bool

definition get_or :: "'a option \<Rightarrow> 'a \<Rightarrow> 'a" where
  "get_or v d = (case v of None \<Rightarrow> d | Some x \<Rightarrow> x)"

text \<open>\<open>product.get("price_str") or product.get("price", "0")\<close>, then \<open>extract_price\<close>.\<close>

definition price_of :: "organic_result \<Rightarrow> rat" where
  "price_of p =
     (let a = get_or (r_price_str p) PNone
      in extract_price (if truthy a then a else get_or (r_price p) (PStr ''0'')))"

text \<open>The test \<open>min_price <= price_val <= max_price\<close> of the loop.\<close>

definition in_band :: "rat \<Rightarrow> rat \<Rightarrow> organic_result \<Rightarrow> bool" where
  "in_band lo hi p = (lo \<le> price_of p \<and> price_of p \<le> hi)"

text \<open>
  Lines 118 to 140, the body of the loop for a result in the band: the rating, then the
  review count, which may raise, then the record.
\<close>

definition make_product :: "organic_result \<Rightarrow> rat \<Rightarrow> exn + product" where
  "make_product p price_val =
     (let rating_val = parse_rating (get_or (r_rating p) (Num 0))
      in case parse_reviews (get_or (r_ratings_total p) (Num 0)) of
           Inl e \<Rightarrow> Inl e
         | Inr reviews \<Rightarrow>
             Inr \<lparr>title = get_or (r_title p) ''Produit sans titre'',
                  price = price_val,
                  price_str = (if price_val > 0 then Dollars price_val else Unavailable),
                  rating = rating_val,
                  reviews_count = reviews,
                  link = get_or (r_link p) [],
                  description = get_or (r_snippet p) ''Description non disponible'',
                  image = get_or (r_image p) [],
                  delivery = get_or (r_delivery p) (PStr []),
                  prime = get_or (r_prime p) False\<rparr>)"

text \<open>The loop over \<open>organic_results\<close>; the first result that raises ends it.\<close>

fun collect :: "rat \<Rightarrow> rat \<Rightarrow> organic_result list \<Rightarrow> exn + product list" where
  "collect lo hi [] = Inr []"
| "collect lo hi (p # ps) =
     (let price_val = price_of p
      in if lo \<le> price_val \<and> price_val \<le> hi
         then (case make_product p price_val of
                 Inl e \<Rightarrow> Inl e
               | Inr x \<Rightarrow> (case collect lo hi ps of Inl e \<Rightarrow> Inl e | Inr xs \<Rightarrow> Inr (x # xs)))
         else collect lo hi ps)"

text \<open>
  The key \<open>(x["rating"], x["reviews_count"])\<close> and the comparison \<open><\<close> of two such
  tuples: the first components that are not equal decide.
\<close>

definition sort_key_of :: "product \<Rightarrow> pynum \<times> rat" where
  "sort_key_of x = (rating x, reviews_count x)"

fun key_lt :: "pynum \<times> rat \<Rightarrow> pynum \<times> rat \<Rightarrow> bool" where
  "key_lt (r1, c1) (r2, c2) = (if num_eq r1 r2 then c1 < c2 else num_lt r1 r2)"

text \<open>
  The place of a key in the linear order of the keys without NaN: minus infinity, the
  rational numbers, infinity.
\<close>

fun num_rank :: "pynum \<Rightarrow> int \<times> rat" where
  "num_rank NegInf = (- 1, 0)"
| "num_rank (Fin r) = (0, r)"
| "num_rank PosInf = (1, 0)"
| "num_rank NaN = (2, 0)"

definition order_key :: "product \<Rightarrow> (int \<times> rat) \<times> rat" where
  "order_key x = (num_rank (rating x), reviews_count x)"

text \<open>
  A stable descending sort by a key with a linear order. CPython reverses the list, sorts
  it stably in ascending order, and reverses it again.
\<close>

definition sort_reverse :: "('a \<Rightarrow> 'k::linorder) \<Rightarrow> 'a list \<Rightarrow> 'a list" where
  "sort_reverse f xs = rev (sort_key f (rev xs))"

text \<open>No record has a smaller key than the record after it.\<close>

fun no_ascent :: "product list \<Rightarrow> bool" where
  "no_ascent (a # b # xs) = (\<not> key_lt (sort_key_of a) (sort_key_of b) \<and> no_ascent (b # xs))"
| "no_ascent _ = True"

text \<open>
  \<open>products.sort(key=..., reverse=True)\<close>, line 142. Without NaN the keys are linearly
  ordered and the sort is the stable descending one. With a NaN among the keys \<open><\<close> is
  no order. CPython then still begins by looking for a run in the reversed list: when no
  record has a smaller key than the record after it, the whole list is one run and is
  left as it is. What the merge sort does with any other list that holds a NaN depends on
  the version of CPython and is the parameter \<open>unordered\<close>.
\<close>

definition list_sort_reverse :: "(product list \<Rightarrow> product list) \<Rightarrow> product list \<Rightarrow> product list" where
  "list_sort_reverse unordered xs =
     (if list_all (\<lambda>x. rating x \<noteq> NaN) xs then sort_reverse order_key xs
      else if no_ascent xs then xs
      else unordered xs)"

text \<open>The slice \<open>xs[:n]\<close>; a negative \<open>n\<close> counts from the end.\<close>

definition slice_to :: "int \<Rightarrow> 'a list \<Rightarrow> 'a list" where
  "slice_to n xs = (if 0 \<le> n then take (nat n) xs else take (nat (int (length xs) + n)) xs)"

text \<open>Lines 142 and 143: the ranking step.\<close>

definition rank :: "(product list \<Rightarrow> product list) \<Rightarrow> int \<Rightarrow> product list \<Rightarrow> product list" where
  "rank unordered num_results products =
     slice_to num_results (list_sort_reverse unordered products)"

definition request_params :: "string \<Rightarrow> string \<Rightarrow> int \<Rightarrow> search_params" where
  "request_params serp_key q num_results =
     \<lparr>p_engine = ''amazon'', p_amazon_domain = ''amazon.fr'', p_api_key = serp_key,
      p_k = q, p_s = ''review-rank'', p_num = num_results * 2\<rparr>"

text \<open>
  The body of the \<open>try\<close>. \<open>raise_for_status\<close> raises for the status codes 400 to 599.
\<close>

definition fetch_body ::
  "(product list \<Rightarrow> product list) \<Rightarrow> (search_params \<Rightarrow> http_result) \<Rightarrow> string \<Rightarrow> string
     \<Rightarrow> rat \<Rightarrow> rat \<Rightarrow> int \<Rightarrow> exn + product list" where
  "fetch_body unordered get serp_key q lo hi num_results =
     (case get (request_params serp_key q num_results) of
        RequestRaises e \<Rightarrow> Inl (RequestException e)
      | Response status body \<Rightarrow>
          if 400 \<le> status \<and> status < 600 then Inl (HTTPError status)
          else (case body of
                  None \<Rightarrow> Inl JSONDecodeError
                | Some data \<Rightarrow>
                    (case collect lo hi (get_or (organic_results data) []) of
                       Inl e \<Rightarrow> Inl e
                     | Inr products \<Rightarrow> Inr (rank unordered num_results products))))"

text \<open>
  \<open>fetch_amazon_products\<close> returns the list and, beside it, the messages it shows with
  \<open>st.error\<close>. The request and the API key are parameters, and so is \<open>unordered\<close>. The
  cache of \<open>st.cache_data\<close> is not modelled.
\<close>

datatype warning = SearchError exn

definition fetch_amazon_products ::
  "(product list \<Rightarrow> product list) \<Rightarrow> (search_params \<Rightarrow> http_result) \<Rightarrow> string \<Rightarrow> string
     \<Rightarrow> rat \<Rightarrow> rat \<Rightarrow> int \<Rightarrow> warning list \<times> product list" where
  "fetch_amazon_products unordered get serp_key q lo hi num_results =
     (case fetch_body unordered get serp_key q lo hi num_results of
        Inr products \<Rightarrow> ([], products)
      | Inl e \<Rightarrow> ([SearchError e], []))"

text \<open>
  Sample data for the worked examples: a result with a title, a \<open>price\<close>, a rating and a
  review count and no other field; a response with six results, three of them priced
  between 10 and 50; the same with the ratings 3.0, nan and 5.0 for the three; a result
  whose review count is a string of 4301 digits; a record with a title, a rating and a
  review count. \<open>keep_order\<close> stands for the parameter
  \<open>unordered\<close> in the examples, none of which reaches it.
\<close>

definition sample_result ::
  "string \<Rightarrow> pyval \<Rightarrow> num_or_str option \<Rightarrow> num_or_str option \<Rightarrow> organic_result" where
  "sample_result t pr r c =
     \<lparr>r_title = Some t, r_price_str = None, r_price = Some pr, r_rating = r,
      r_ratings_total = c, r_link = None, r_snippet = None, r_image = None,
      r_delivery = None, r_prime = None\<rparr>"

definition canned_results :: "organic_result list" where
  "canned_results =
     [sample_result ''A'' (PStr ''19,99 EUR'') (Some (Num (9 / 2))) (Some (Str ''1 204 avis'')),
      sample_result ''B'' (PStr ''5,00 EUR'') (Some (Num 5)) (Some (Num 12)),
      sample_result ''C'' (PList [''$35.50'', ''$40.00'']) (Some (Str ''4.5 sur 5'')) (Some (Num 3100)),
      sample_result ''D'' (PStr ''120 EUR'') (Some (Num (24 / 5))) (Some (Num 87)),
      sample_result ''E'' (PStr ''49.90'') (Some (Str ''n/a'')) None,
      sample_result ''F'' PNone None None]"


definition long_count_result :: organic_result where
  "long_count_result =
     sample_result ''T'' (PStr ''20 EUR'') (Some (Str ''4.5''))
       (Some (Str (replicate 4301 (CHR ''1''))))"


definition keep_order :: "product list \<Rightarrow> product list" where
  "keep_order xs = xs"

section \<open>Chat\<close>

text \<open>
  The texts of the chat are lists of Unicode code points, since the fallback message holds
  a character beyond Latin-1. \<open>str.strip\<close> removes the white space of Unicode.
\<close>

type_synonym utext = "nat list"

definition ustr :: "string \<Rightarrow> utext" where
  "ustr t = map of_char t"

definition is_uspace :: "nat \<Rightarrow> bool" where
  "is_uspace n =
     ((9 \<le> n \<and> n \<le> 13) \<or> (28 \<le> n \<and> n \<le> 32) \<or> n = 0x85 \<or> n = 0xA0 \<or> n = 0x1680
      \<or> (0x2000 \<le> n \<and> n \<le> 0x200A) \<or> n = 0x2028 \<or> n = 0x2029 \<or> n = 0x202F
      \<or> n = 0x205F \<or> n = 0x3000)"

definition ustrip :: "utext \<Rightarrow> utext" where
  "ustrip t = rev (dropWhile is_uspace (rev (dropWhile is_uspace t)))"

record chat_message =
  role :: string
  content :: utext

record chat_request =
  model :: string
  messages :: "chat_message list"
  max_tokens :: nat
  temperature :: rat

text \<open>
  What \<open>client.chat.completions.create\<close> does: it raises an exception with some text, or
  it returns a response, of which the code reads the contents of the choices (\<open>None\<close>
  for a choice without content).
\<close>

datatype completion = ApiRaises utext | Choices "utext option list"

text \<open>The slice \<open>xs[-n:]\<close> for a positive \<open>n\<close>.\<close>

definition last_n :: "nat \<Rightarrow> 'a list \<Rightarrow> 'a list" where
  "last_n n xs = drop (length xs - n) xs"

text \<open>
  \<open>response.choices[0].message.content.strip()\<close>: the text, or the \<open>str()\<close> of the
  exception (\<open>IndexError\<close> for no choice, \<open>AttributeError\<close> for a content that is
  \<open>None\<close>).
\<close>

definition first_content :: "utext option list \<Rightarrow> utext + utext" where
  "first_content choices =
     (case choices of
        [] \<Rightarrow> Inl (ustr ''list index out of range'')
      | None # _ \<Rightarrow> Inl (ustr (CHR 0x27 # ''NoneType'' @ CHR 0x27 # '' object has no attribute ''
                              @ CHR 0x27 # ''strip'' @ [CHR 0x27]))
      | Some c # _ \<Rightarrow> Inr (ustrip c))"

text \<open>
  The fallback text of line 475, an f-string without a placeholder. 233 is e with an acute
  accent, 39 the apostrophe, 128517 the emoji that ends the message.
\<close>

definition fallback_message :: utext where
  "fallback_message =
     ustr ''D'' @ [233] @ ustr ''sol'' @ [233] @ ustr '', j'' @ [39]
     @ ustr ''ai un petit souci technique... Pouvez-vous r'' @ [233] @ ustr ''p'' @ [233]
     @ ustr ''ter ? '' @ [128517]"

text \<open>
  \<open>app.py\<close> defines \<open>chat_with_assistant\<close> twice, at line 149 and at line 442. Both
  \<open>def\<close> statements run when the module is loaded, the second rebinds the name, and
  \<open>main\<close> is called after both: the function the program calls is the one of line 442.
  The system prompt (the persona and \<open>json.dumps\<close> of the context) is the parameter
  \<open>system_prompt\<close>, the API call is the parameter \<open>create\<close>.
\<close>

definition chat_request_of ::
  "('ctx \<Rightarrow> utext) \<Rightarrow> utext \<Rightarrow> chat_message list \<Rightarrow> 'ctx \<Rightarrow> chat_request" where
  "chat_request_of system_prompt user_message conversation_history user_context =
     \<lparr>model = ''gpt-4o-mini'',
      messages = [\<lparr>role = ''system'', content = system_prompt user_context\<rparr>]
                 @ last_n 8 conversation_history
                 @ [\<lparr>role = ''user'', content = user_message\<rparr>],
      max_tokens = 300,
      temperature = 8 / 10\<rparr>"

definition chat_with_assistant ::
  "('ctx \<Rightarrow> utext) \<Rightarrow> (chat_request \<Rightarrow> completion) \<Rightarrow> utext \<Rightarrow> chat_message list \<Rightarrow> 'ctx \<Rightarrow> utext" where
  "chat_with_assistant system_prompt create user_message conversation_history user_context =
     (case create (chat_request_of system_prompt user_message conversation_history user_context) of
        ApiRaises e \<Rightarrow> fallback_message
      | Choices cs \<Rightarrow> (case first_content cs of Inr t \<Rightarrow> t | Inl e \<Rightarrow> fallback_message))"

text \<open>
  The definition of line 149, which the one above replaces. Its fallback text ends with
  \<open>str(e)\<close>; its system prompt also depends on the history.
\<close>

definition technical_message :: "utext \<Rightarrow> utext" where
  "technical_message e =
     ustr ''D'' @ [233] @ ustr ''sol'' @ [233] @ ustr '', j'' @ [39]
     @ ustr ''ai un probl'' @ [232] @ ustr ''me technique : '' @ e"

definition chat_request_line149 ::
  "('ctx \<Rightarrow> chat_message list \<Rightarrow> utext) \<Rightarrow> utext \<Rightarrow> chat_message list \<Rightarrow> 'ctx \<Rightarrow> chat_request" where
  "chat_request_line149 system_prompt user_message conversation_history user_context =
     \<lparr>model = ''gpt-4o-mini'',
      messages = [\<lparr>role = ''system'', content = system_prompt user_context conversation_history\<rparr>]
                 @ last_n 6 conversation_history
                 @ [\<lparr>role = ''user'', content = user_message\<rparr>],
      max_tokens = 400,
      temperature = 8 / 10\<rparr>"

definition chat_with_assistant_line149 ::
  "('ctx \<Rightarrow> chat_message list \<Rightarrow> utext) \<Rightarrow> (chat_request \<Rightarrow> completion) \<Rightarrow> utext
     \<Rightarrow> chat_message list \<Rightarrow> 'ctx \<Rightarrow> utext" where
  "chat_with_assistant_line149 system_prompt create user_message conversation_history user_context =
     (case create (chat_request_line149 system_prompt user_message conversation_history user_context) of
        ApiRaises e \<Rightarrow> technical_message e
      | Choices cs \<Rightarrow> (case first_content cs of Inr t \<Rightarrow> t | Inl e \<Rightarrow> technical_message e))"

section \<open>Properties of the price normalizer\<close>

lemma decimal_value_nonneg: "0 \<le> decimal_value ip fp"
  by (simp add: decimal_value_def)

lemma py_float_nonneg: "py_float s = Some v \<Longrightarrow> 0 \<le> v"
  by (auto simp: py_float_def Let_def decimal_value_nonneg split: list.splits if_splits)

lemma star_greedy_ne: "star_greedy P s \<noteq> []"
  by (induction s) auto

lemma hd_star_greedy: "hd (star_greedy P s) = dropWhile P s"
  by (induction s) (auto simp: star_greedy_ne)

lemma hd_concat_map: "xs \<noteq> [] \<Longrightarrow> f (hd xs) \<noteq> [] \<Longrightarrow> hd (concat (map f xs)) = hd (f (hd xs))"
  by (cases xs) auto

lemma concat_map_ne: "xs \<noteq> [] \<Longrightarrow> f (hd xs) \<noteq> [] \<Longrightarrow> concat (map f xs) \<noteq> []"
  by (cases xs) auto

lemma m_Plus_ne: "P c \<Longrightarrow> matches (Plus P) (g, c # cs) \<noteq> []"
  by (simp add: star_greedy_ne)

lemma m_Plus_hd: "P c \<Longrightarrow> hd (matches (Plus P) (g, c # cs)) = (g, dropWhile P cs)"
  by (simp add: star_greedy_ne hd_map hd_star_greedy)

lemma m_Plus_Nil: "matches (Plus P) (g, s) = [] \<longleftrightarrow> (case s of [] \<Rightarrow> True | c # _ \<Rightarrow> \<not> P c)"
  by (simp add: star_greedy_ne split: list.splits)

lemma m_frac_ne: "matches frac_re (g, u) \<noteq> []"
  by (simp add: frac_re_def star_greedy_ne)

lemma m_frac_hd: "hd (matches frac_re (g, u)) = (g, after_frac u)"
  by (cases u) (auto simp: frac_re_def after_frac_def star_greedy_ne hd_map hd_star_greedy hd_append)

lemma price_re_split: "price_re = Seq (Plus is_digit) frac_re"
  by (simp add: price_re_def frac_re_def)

lemma m_price_Nil: "matches price_re (g, s) = [] \<longleftrightarrow> (case s of [] \<Rightarrow> True | c # _ \<Rightarrow> \<not> is_digit c)"
proof (cases s)
  case Nil then show ?thesis by (simp add: price_re_split)
next
  case (Cons c cs)
  show ?thesis
  proof (cases "is_digit c")
    case True
    have "matches (Plus is_digit) (g, s) \<noteq> []" using True Cons by (simp add: star_greedy_ne)
    moreover have "matches frac_re (hd (matches (Plus is_digit) (g, s))) \<noteq> []"
      by (cases "hd (matches (Plus is_digit) (g, s))") (simp add: m_frac_ne)
    ultimately have "matches price_re (g, s) \<noteq> []"
      unfolding price_re_split matches.simps by (rule concat_map_ne)
    then show ?thesis using True Cons by simp
  next
    case False
    then show ?thesis using Cons by (simp add: price_re_split)
  qed
qed

lemma m_price_hd:
  assumes "is_digit c"
  shows "hd (matches price_re (g, c # cs)) = (g, after_frac (dropWhile is_digit cs))"
proof -
  let ?xs = "matches (Plus is_digit) (g, c # cs)"
  have ne: "?xs \<noteq> []" using assms by (rule m_Plus_ne)
  have h: "hd ?xs = (g, dropWhile is_digit cs)" using assms by (rule m_Plus_hd)
  have "hd (concat (map (matches frac_re) ?xs)) = hd (matches frac_re (hd ?xs))"
  proof (rule hd_concat_map[OF ne])
    show "matches frac_re (hd ?xs) \<noteq> []" unfolding h by (rule m_frac_ne)
  qed
  moreover have "matches price_re (g, c # cs) = concat (map (matches frac_re) ?xs)"
    by (simp only: price_re_split matches.simps(8))
  ultimately show ?thesis
    by (simp only: h m_frac_hd)
qed

lemma match_at_price:
  "match_at price_re s =
     (case s of [] \<Rightarrow> None
      | c # cs \<Rightarrow> if is_digit c
           then Some \<lparr>whole = take (length s - length (after_frac (dropWhile is_digit cs))) s,
                      groups = [], rest = after_frac (dropWhile is_digit cs)\<rparr>
           else None)"
proof (cases s)
  case Nil
  then show ?thesis using m_price_Nil[of "[]" "[]"] by (simp add: match_at_def)
next
  case (Cons c cs)
  show ?thesis
  proof (cases "is_digit c")
    case False
    then have "matches price_re ([], s) = []" using Cons by (simp add: m_price_Nil)
    then show ?thesis using Cons False by (simp add: match_at_def)
  next
    case True
    then have ne: "matches price_re ([], s) \<noteq> []" using Cons by (simp add: m_price_Nil)
    have h: "hd (matches price_re ([], s)) = ([], after_frac (dropWhile is_digit cs))"
      using True Cons by (simp add: m_price_hd)
    obtain x xs where x: "matches price_re ([], s) = x # xs" using ne by (cases "matches price_re ([], s)") auto
    with h have "x = ([], after_frac (dropWhile is_digit cs))" by simp
    then show ?thesis using x Cons True by (simp add: match_at_def)
  qed
qed

lemma findall_Some: "re_search r s = Some x \<Longrightarrow> \<exists>t. findall r s = whole x # t"
  by (subst findall.simps) simp

lemma findall_None: "re_search r s = None \<Longrightarrow> findall r s = []"
  by (subst findall.simps) simp

lemma re_search_price_no_digit: "\<not> (\<exists>c\<in>set s. is_digit c) \<Longrightarrow> re_search price_re s = None"
  by (induction s) (auto simp: match_at_price)

lemma re_sub_cls_filter: "re_sub_cls P [] s = filter (\<lambda>c. \<not> P c) s"
  by (induction s) (auto simp: re_sub_cls_def)

lemma not_digit_point: "\<not> is_digit (CHR ''.'')"
  by code_simp

lemma not_digit_comma: "\<not> is_digit (CHR '','')"
  by code_simp

lemma replace_digits: "list_all is_digit ds \<Longrightarrow> replace_char (CHR '','') (CHR ''.'') ds = ds"
  unfolding replace_char_def list_all_iff using not_digit_comma by (induction ds) auto

lemma dropWhile_all: "list_all P xs \<Longrightarrow> dropWhile P xs = []"
  by (simp add: list_all_iff)

lemma takeWhile_digits: "list_all is_digit ip \<Longrightarrow> takeWhile is_digit (ip @ CHR ''.'' # fp) = ip"
  by (simp add: list_all_iff not_digit_point)

lemma dropWhile_digits: "list_all is_digit ip \<Longrightarrow> dropWhile is_digit (ip @ CHR ''.'' # fp) = CHR ''.'' # fp"
  by (simp add: list_all_iff not_digit_point)

lemma py_float_int: "ip \<noteq> [] \<Longrightarrow> list_all is_digit ip \<Longrightarrow> py_float ip = Some (decimal_value ip [])"
proof -
  assume ne: "ip \<noteq> []" and d: "list_all is_digit ip"
  have tw: "takeWhile is_digit ip = ip" using d by (simp add: list_all_iff)
  show ?thesis unfolding py_float_def Let_def tw dropWhile_all[OF d] using ne by simp
qed

lemma py_float_frac:
  "ip \<noteq> [] \<Longrightarrow> list_all is_digit ip \<Longrightarrow> list_all is_digit fp \<Longrightarrow>
   py_float (ip @ CHR ''.'' # fp) = Some (decimal_value ip fp)"
  by (simp add: py_float_def Let_def takeWhile_digits dropWhile_digits)

lemma search_numeral_int:
  assumes "ip \<noteq> []" "list_all is_digit ip"
  shows "re_search price_re ip = Some \<lparr>whole = ip, groups = [], rest = []\<rparr>"
proof -
  obtain c cs where ip: "ip = c # cs" using assms(1) by (cases ip) auto
  have c: "is_digit c" and cs: "list_all is_digit cs" using assms(2) ip by auto
  have "match_at price_re ip = Some \<lparr>whole = ip, groups = [], rest = []\<rparr>"
    by (simp add: match_at_price ip c dropWhile_all[OF cs] after_frac_def)
  then show ?thesis by (simp add: ip)
qed

lemma search_numeral_frac:
  assumes "ip \<noteq> []" "list_all is_digit ip" "list_all is_digit fp"
  shows "re_search price_re (ip @ CHR ''.'' # fp)
           = Some \<lparr>whole = ip @ CHR ''.'' # fp, groups = [], rest = []\<rparr>"
proof -
  obtain c cs where ip: "ip = c # cs" using assms(1) by (cases ip) auto
  have c: "is_digit c" and cs: "list_all is_digit cs" using assms(2) ip by auto
  have d: "dropWhile is_digit (cs @ CHR ''.'' # fp) = CHR ''.'' # fp"
    using cs by (rule dropWhile_digits)
  have "match_at price_re (ip @ CHR ''.'' # fp)
          = Some \<lparr>whole = ip @ CHR ''.'' # fp, groups = [], rest = []\<rparr>"
    by (simp add: match_at_price ip c d after_frac_def dropWhile_all[OF assms(3)])
  then show ?thesis by (simp add: ip)
qed

lemma extract_price_no_digit:
  assumes "\<not> (\<exists>c\<in>set (price_text p). is_digit c)"
  shows "extract_price p = 0"
proof -
  let ?t = "replace_char (CHR '','') (CHR ''.'') (re_sub_cls not_price_char [] (price_text p))"
  have "\<not> (\<exists>c\<in>set ?t. is_digit c)"
    using assms not_digit_point by (auto simp: replace_char_def re_sub_cls_filter)
  then have "findall price_re ?t = []"
    by (intro findall_None re_search_price_no_digit)
  then show ?thesis
    by (simp add: extract_price_def Let_def)
qed

lemma re_search_Some:
  "re_search r t = Some x \<Longrightarrow> \<exists>s. suffix s t \<and> match_at r s = Some x"
proof (induction t)
  case Nil
  then show ?case by auto
next
  case (Cons c t)
  show ?case
  proof (cases "match_at r (c # t)")
    case None
    then have "re_search r t = Some x" using Cons.prems by simp
    then obtain s where "suffix s t" "match_at r s = Some x" using Cons.IH by blast
    then show ?thesis by (auto simp: suffix_Cons)
  next
    case (Some y)
    then have "match_at r (c # t) = Some x" using Cons.prems by simp
    then show ?thesis by blast
  qed
qed

lemma take_digits_run:
  "take (length (c # cs) - length (dropWhile is_digit cs)) (c # cs) = c # takeWhile is_digit cs"
proof -
  have "length cs = length (takeWhile is_digit cs) + length (dropWhile is_digit cs)"
    by (metis length_append takeWhile_dropWhile_id)
  then have "length (c # cs) - length (dropWhile is_digit cs) = Suc (length (takeWhile is_digit cs))"
    by simp
  then show ?thesis
    by (simp add: takeWhile_eq_take[symmetric])
qed

lemma py_float_digits: "is_digit c \<Longrightarrow> py_float (c # takeWhile is_digit cs) \<noteq> None"
proof -
  assume c: "is_digit c"
  have "list_all is_digit (c # takeWhile is_digit cs)"
    using c by (auto simp: list_all_iff dest: set_takeWhileD)
  then show ?thesis using py_float_int[of "c # takeWhile is_digit cs"] by simp
qed

lemma py_float_on_match:
  assumes "re_search price_re t = Some x"
  shows "py_float (whole x) \<noteq> None"
proof -
  obtain s where m: "match_at price_re s = Some x" using re_search_Some[OF assms] by blast
  then obtain c cs where s: "s = c # cs" and c: "is_digit c"
    by (auto simp: match_at_price split: list.splits if_splits)
  let ?d = "takeWhile is_digit cs" and ?u = "dropWhile is_digit cs"
  have w: "whole x = take (length s - length (after_frac ?u)) s"
    using m s c by (auto simp: match_at_price)
  have cs: "cs = ?d @ ?u" by simp
  show ?thesis
  proof (cases ?u)
    case Nil
    have a: "after_frac ?u = ?u" unfolding Nil by (simp add: after_frac_def)
    have "whole x = c # ?d" unfolding w a s by (rule take_digits_run)
    then show ?thesis using py_float_digits[OF c] by simp
  next
    case (Cons c' r)
    have nd: "\<not> is_digit c'" using Cons by (metis hd_dropWhile list.distinct(1) list.sel(1))
    show ?thesis
    proof (cases "c' = CHR ''.''")
      case False
      have a: "after_frac ?u = ?u" unfolding Cons using False nd by (simp add: after_frac_def)
      have "whole x = c # ?d" unfolding w a s by (rule take_digits_run)
      then show ?thesis using py_float_digits[OF c] by simp
    next
      case True
      have a: "after_frac ?u = dropWhile is_digit r" unfolding Cons using True by (simp add: after_frac_def)
      have "s = (c # ?d @ CHR ''.'' # takeWhile is_digit r) @ dropWhile is_digit r"
        using s cs Cons True by (metis append.assoc append_Cons takeWhile_dropWhile_id)
      then have "whole x = c # ?d @ CHR ''.'' # takeWhile is_digit r"
        using w a by (metis append_eq_conv_conj length_append add_diff_cancel_right')
      moreover have "list_all is_digit (c # ?d)" "list_all is_digit (takeWhile is_digit r)"
        using c by (auto simp: list_all_iff dest: set_takeWhileD)
      ultimately show ?thesis
        using py_float_frac[of "c # ?d" "takeWhile is_digit r"] by simp
    qed
  qed
qed

text \<open>
  The \<open>except ValueError\<close> of \<open>extract_price\<close> is never taken: \<open>float\<close> accepts
  every text that \<open>findall\<close> returns.
\<close>

lemma float_accepts_numbers: "findall price_re t = n # ns \<Longrightarrow> py_float n \<noteq> None"
proof -
  assume f: "findall price_re t = n # ns"
  then obtain x where "re_search price_re t = Some x" and "whole x = n"
    by (subst (asm) findall.simps) (auto split: option.splits)
  then show ?thesis using py_float_on_match by blast
qed

text \<open>
  Claim C2, as amended. The digits, points and commas of a string, read in order, are what
  \<open>re.sub\<close> leaves. When they form one numeral \<open>ip\<close>, \<open>ip.fp\<close> or \<open>ip,fp\<close> (\<open>ip\<close> a
  non-empty run of digits), whatever other characters stand before, between or after them,
  \<open>extract_price\<close> returns the value of \<open>ip.fp\<close>. For a string without a digit, the
  empty string among them, it returns 0.
\<close>

theorem extract_price_numeral:
  "(ip \<noteq> [] \<and> list_all is_digit ip \<and> re_sub_cls not_price_char [] s = ip
      \<longrightarrow> extract_price (PStr s) = decimal_value ip [])
   \<and> (ip \<noteq> [] \<and> list_all is_digit ip \<and> list_all is_digit fp
        \<and> (sep = CHR ''.'' \<or> sep = CHR '','')
        \<and> re_sub_cls not_price_char [] s = ip @ sep # fp
      \<longrightarrow> extract_price (PStr s) = decimal_value ip fp)
   \<and> (\<not> (\<exists>c\<in>set s. is_digit c) \<longrightarrow> extract_price (PStr s) = 0)"
proof (intro conjI impI)
  have e: "extract_price (PStr s) =
      (case findall price_re (replace_char (CHR '','') (CHR ''.'') (re_sub_cls not_price_char [] s))
       of [] \<Rightarrow> 0 | n # _ \<Rightarrow> (case py_float n of Some v \<Rightarrow> v | None \<Rightarrow> 0))" if "s \<noteq> []"
    using that by (simp add: extract_price_def Let_def)
  assume a: "ip \<noteq> [] \<and> list_all is_digit ip \<and> re_sub_cls not_price_char [] s = ip"
  then have s: "s \<noteq> []" by (auto simp: re_sub_cls_def)
  have clean: "replace_char (CHR '','') (CHR ''.'') (re_sub_cls not_price_char [] s) = ip"
    using a by (simp add: replace_digits)
  obtain t where f: "findall price_re ip = ip # t"
    using findall_Some[OF search_numeral_int, of ip] a by auto
  have p: "py_float ip = Some (decimal_value ip [])" using a by (simp add: py_float_int)
  show "extract_price (PStr s) = decimal_value ip []"
    unfolding e[OF s] clean f by (simp add: p)
next
  have e: "extract_price (PStr s) =
      (case findall price_re (replace_char (CHR '','') (CHR ''.'') (re_sub_cls not_price_char [] s))
       of [] \<Rightarrow> 0 | n # _ \<Rightarrow> (case py_float n of Some v \<Rightarrow> v | None \<Rightarrow> 0))" if "s \<noteq> []"
    using that by (simp add: extract_price_def Let_def)
  assume a: "ip \<noteq> [] \<and> list_all is_digit ip \<and> list_all is_digit fp
        \<and> (sep = CHR ''.'' \<or> sep = CHR '','')
        \<and> re_sub_cls not_price_char [] s = ip @ sep # fp"
  then have s: "s \<noteq> []" by (auto simp: re_sub_cls_def)
  have clean: "replace_char (CHR '','') (CHR ''.'') (re_sub_cls not_price_char [] s)
                 = ip @ CHR ''.'' # fp"
    using a replace_digits[of ip] replace_digits[of fp] by (auto simp: replace_char_def)
  obtain t where f: "findall price_re (ip @ CHR ''.'' # fp) = (ip @ CHR ''.'' # fp) # t"
    using findall_Some[OF search_numeral_frac, of ip fp] a by auto
  have p: "py_float (ip @ CHR ''.'' # fp) = Some (decimal_value ip fp)"
    using a by (simp add: py_float_frac)
  show "extract_price (PStr s) = decimal_value ip fp"
    unfolding e[OF s] clean f by (simp add: p)
next
  assume "\<not> (\<exists>c\<in>set s. is_digit c)"
  then show "extract_price (PStr s) = 0"
    using extract_price_no_digit[of "PStr s"] by simp
qed

theorem extract_price_numeral_witness:
  "extract_price (PStr ''$12.99'') = 1299 / 100
   \<and> extract_price (PStr ''EUR 12,5 TTC'') = 25 / 2
   \<and> extract_price (PStr ''15 euros'') = 15
   \<and> extract_price (PStr ''n/a'') = 0"
proof -
  have d: "list_all is_digit ''12''" "list_all is_digit ''99''" "list_all is_digit ''5''"
    "list_all is_digit ''15''" by code_simp+
  have c1: "re_sub_cls not_price_char [] ''$12.99'' = ''12'' @ CHR ''.'' # ''99''" by code_simp
  have c2: "re_sub_cls not_price_char [] ''EUR 12,5 TTC'' = ''12'' @ CHR '','' # ''5''" by code_simp
  have c3: "re_sub_cls not_price_char [] ''15 euros'' = ''15''" by code_simp
  have c4: "\<not> (\<exists>c\<in>set ''n/a''. is_digit c)" by code_simp
  have v: "decimal_value ''12'' ''99'' = 1299 / 100" "decimal_value ''12'' ''5'' = 25 / 2"
    "decimal_value ''15'' [] = 15" by code_simp+
  from extract_price_numeral[of "''12''" "''$12.99''" "''99''" "CHR ''.''"] d c1 v
  have 1: "extract_price (PStr ''$12.99'') = 1299 / 100" by simp
  from extract_price_numeral[of "''12''" "''EUR 12,5 TTC''" "''5''" "CHR '',''"] d c2 v
  have 2: "extract_price (PStr ''EUR 12,5 TTC'') = 25 / 2" by simp
  from extract_price_numeral[of "''15''" "''15 euros''" "[]" "CHR ''.''"] d c3 v
  have 3: "extract_price (PStr ''15 euros'') = 15" by simp
  from extract_price_numeral[of "[]" "''n/a''" "[]" "CHR ''.''"] c4
  have 4: "extract_price (PStr ''n/a'') = 0" by simp
  from 1 2 3 4 show ?thesis by simp
qed

text \<open>
  Claim C2 as stated fails: a string can contain a decimal number after a currency symbol
  while other digits or separators of the string change what is read. In
  \<open>2 x $10.50\<close> the digits run together to 210.50, and in \<open>$1,234.56\<close> the comma is
  read as the decimal point.
\<close>

theorem extract_price_contains_counterexample:
  "extract_price (PStr ''2 x $10.50'') = 421 / 2
   \<and> extract_price (PStr ''2 x $10.50'') \<noteq> decimal_value ''10'' ''50''
   \<and> extract_price (PStr ''$1,234.56'') = 1234 / 1000
   \<and> extract_price (PStr ''$1,234.56'') \<noteq> decimal_value ''1234'' ''56''"
  by code_simp

text \<open>
  Claim C8. \<open>extract_price\<close> is a total function whose value is never negative, for
  \<open>None\<close>, a string and a list alike; a falsy argument gives 0, and so does every
  argument whose text holds no digit.
\<close>

theorem extract_price_total_nonneg:
  "0 \<le> extract_price p
   \<and> (\<not> truthy p \<longrightarrow> extract_price p = 0)
   \<and> (\<not> (\<exists>c\<in>set (price_text p). is_digit c) \<longrightarrow> extract_price p = 0)"
proof (intro conjI impI)
  show "0 \<le> extract_price p"
    by (auto simp: extract_price_def Let_def py_float_nonneg split: list.splits option.splits)
next
  assume "\<not> truthy p"
  then show "extract_price p = 0" by (simp add: extract_price_def)
next
  assume "\<not> (\<exists>c\<in>set (price_text p). is_digit c)"
  then show "extract_price p = 0" by (rule extract_price_no_digit)
qed

theorem extract_price_total_nonneg_witness:
  "extract_price PNone = 0 \<and> extract_price (PList []) = 0
   \<and> extract_price (PList [''gratuit'', ''12'']) = 0
   \<and> 0 \<le> extract_price (PStr ''-12,5'')"
proof -
  have c: "\<not> (\<exists>c\<in>set (price_text (PList [''gratuit'', ''12''])). is_digit c)" by code_simp
  from extract_price_total_nonneg[of PNone]
  have 1: "extract_price PNone = 0" by simp
  from extract_price_total_nonneg[of "PList []"]
  have 2: "extract_price (PList []) = 0" by simp
  from extract_price_total_nonneg[of "PList [''gratuit'', ''12'']"] c
  have 3: "extract_price (PList [''gratuit'', ''12'']) = 0" by simp
  from extract_price_total_nonneg[of "PStr ''-12,5''"]
  have 4: "0 \<le> extract_price (PStr ''-12,5'')" by simp
  from 1 2 3 4 show ?thesis by simp
qed

text \<open>
  Claim C9. \<open>format_delivery\<close> returns a string of at most 30 characters for \<open>None\<close>,
  a string and a list of strings, and the fixed string \<open>Standard\<close> for a falsy argument
  (\<open>None\<close>, the empty string, the empty list).
\<close>

theorem format_delivery_bounded:
  "length (format_delivery d) \<le> 30 \<and> (\<not> truthy d \<longrightarrow> format_delivery d = ''Standard'')"
  by (cases d) (auto simp: format_delivery_def split: list.splits)

theorem format_delivery_bounded_witness:
  "format_delivery PNone = ''Standard'' \<and> format_delivery (PStr []) = ''Standard''
   \<and> format_delivery (PList []) = ''Standard''
   \<and> length (format_delivery (PList [''Livraison GRATUITE mercredi 12 novembre'', ''x''])) \<le> 30"
  using format_delivery_bounded[of PNone] format_delivery_bounded[of "PStr []"]
    format_delivery_bounded[of "PList []"]
    format_delivery_bounded[of "PList [''Livraison GRATUITE mercredi 12 novembre'', ''x'']"]
  by simp

section \<open>Properties of the intent detector\<close>

lemma first_intent_empty: "first_intent search_patterns [] = None"
  by code_simp

text \<open>
  Claim C10. For the empty history \<open>extract_search_intent\<close> returns \<open>None\<close>; for a
  history whose last turn has no \<open>content\<close> key the text is the empty string and the
  result is \<open>None\<close> again.
\<close>

theorem extract_search_intent_no_text:
  "extract_search_intent [] = None
   \<and> (t ''content'' = None \<longrightarrow> extract_search_intent (h @ [t]) = None)"
  by (simp add: extract_search_intent_def content_of_def first_intent_empty)

theorem extract_search_intent_no_text_witness:
  "extract_search_intent [[''role'' \<mapsto> ''user'', ''content'' \<mapsto> ''cherchons un casque''],
                          [''role'' \<mapsto> ''assistant'']] = None"
proof -
  have "[''role'' \<mapsto> ''assistant''] ''content'' = None" by simp
  with extract_search_intent_no_text[of "[''role'' \<mapsto> ''assistant'']"
      "[[''role'' \<mapsto> ''user'', ''content'' \<mapsto> ''cherchons un casque'']]"]
  show ?thesis by simp
qed

lemma search_skip:
  "(\<forall>i<length p. match_at r (drop i (p @ u)) = None) \<Longrightarrow> re_search r (p @ u) = re_search r u"
proof (induction p)
  case Nil
  then show ?case by simp
next
  case (Cons c p)
  have 0: "match_at r (c # p @ u) = None" using Cons.prems by fastforce
  have "\<forall>i<length p. match_at r (drop i (p @ u)) = None"
  proof (intro allI impI)
    fix i assume "i < length p"
    then have "Suc i < length (c # p)" by simp
    then have "match_at r (drop (Suc i) ((c # p) @ u)) = None" using Cons.prems by blast
    then show "match_at r (drop i (p @ u)) = None" by simp
  qed
  then have "re_search r (p @ u) = re_search r u" by (rule Cons.IH)
  then show ?case using 0 by simp
qed

lemma match_at_Lit_fail: "\<not> prefix w t \<Longrightarrow> match_at (Seq (Lit w) r) t = None"
  by (simp add: match_at_def)

lemma star_greedy_stop: "e = [] \<or> \<not> P (hd e) \<Longrightarrow> star_greedy P e = [e]"
  by (cases e) auto

lemma star_lazy_skip:
  "(\<forall>c\<in>set a. P c) \<Longrightarrow> (\<forall>a1 c a2. a = a1 @ c # a2 \<longrightarrow> f (c # a2 @ z) = [])
     \<Longrightarrow> concat (map f (star_lazy P (a @ z))) = concat (map f (star_lazy P z))"
proof (induction a)
  case Nil
  then show ?case by simp
next
  case (Cons c a)
  have 0: "f (c # a @ z) = []" using Cons.prems(2) by blast
  have "\<forall>a1 c' a2. a = a1 @ c' # a2 \<longrightarrow> f (c' # a2 @ z) = []"
  proof (intro allI impI)
    fix a1 c' a2 assume "a = a1 @ c' # a2"
    then have "c # a = (c # a1) @ c' # a2" by simp
    then show "f (c' # a2 @ z) = []" using Cons.prems(2) by blast
  qed
  then have "concat (map f (star_lazy P (a @ z))) = concat (map f (star_lazy P z))"
    using Cons.prems(1) by (intro Cons.IH) auto
  then show ?case using Cons.prems(1) 0 by simp
qed

lemma prefix_straddle: "prefix w (a @ c # b) \<Longrightarrow> c \<notin> set w \<Longrightarrow> prefix w a"
proof -
  assume p: "prefix w (a @ c # b)" and c: "c \<notin> set w"
  from p consider "prefix w a" | us where "w = a @ us" "prefix us (c # b)"
    by (auto simp: prefix_append)
  then show ?thesis
  proof cases
    case 1 then show ?thesis .
  next
    case 2
    then have "us = []" using c by (cases us) auto
    then show ?thesis using 2 by simp
  qed
qed

lemma space_not_in_stop_words:
  "CHR '' '' \<notin> set ''entre''" "CHR '' '' \<notin> set ''dans''" "CHR '' '' \<notin> set [CHR 0xE0]"
  "CHR '' '' \<notin> set ''pour''"
  by simp_all

lemma stop_word_straddle: "\<not> stop_word_at a \<Longrightarrow> \<not> stop_word_at (a @ CHR '' '' # b)"
  unfolding stop_word_at_def
  using prefix_straddle[of _ a "CHR '' ''" b] space_not_in_stop_words by blast

lemma greedy_no_stop:
  "b \<noteq> [] \<Longrightarrow> \<not> is_space (last b) \<Longrightarrow> \<not> stop_word_at (b @ z)
   \<Longrightarrow> (\<forall>b1 c b2. b = b1 @ c # b2 \<and> is_space c \<longrightarrow> \<not> stop_word_at (b2 @ z))
   \<Longrightarrow> \<forall>s'\<in>set (star_greedy is_space (b @ z)). \<not> stop_word_at s'"
proof (induction b)
  case Nil
  then show ?case by simp
next
  case (Cons c b)
  show ?case
  proof (cases "is_space c")
    case False
    then show ?thesis using Cons.prems(3) by simp
  next
    case True
    have ne: "b \<noteq> []" using True Cons.prems(2) by (cases b) auto
    then have l: "\<not> is_space (last b)" using Cons.prems(2) by simp
    have n: "\<not> stop_word_at (b @ z)" using Cons.prems(4) True by blast
    have "\<forall>b1 c' b2. b = b1 @ c' # b2 \<and> is_space c' \<longrightarrow> \<not> stop_word_at (b2 @ z)"
    proof (intro allI impI)
      fix b1 c' b2 assume a: "b = b1 @ c' # b2 \<and> is_space c'"
      then have "c # b = (c # b1) @ c' # b2" by simp
      then show "\<not> stop_word_at (b2 @ z)" using Cons.prems(4) a by blast
    qed
    then have "\<forall>s'\<in>set (star_greedy is_space (b @ z)). \<not> stop_word_at s'"
      using ne l n by (intro Cons.IH)
    then show ?thesis using True Cons.prems(3) by simp
  qed
qed

lemma concat_map_Nil: "(\<forall>x\<in>set xs. f x = []) \<Longrightarrow> concat (map f xs) = []"
  by simp

lemma space_lit_none:
  assumes "\<forall>s'\<in>set (star_greedy is_space cs). \<not> prefix w s'"
  shows "matches (Seq (Plus is_space) (Lit w)) (g, c # cs) = []"
  using assms by (auto simp: )

lemma stop_none:
  assumes "c \<noteq> CHR ''.''" "c \<noteq> CHR 0x0A"
    and "is_space c \<Longrightarrow> \<forall>s'\<in>set (star_greedy is_space cs). \<not> stop_word_at s'"
  shows "matches stop_re (g, c # cs) = []"
proof (cases "is_space c")
  case False
  then show ?thesis using assms(1,2) by (simp add: stop_re_def)
next
  case True
  then have "\<forall>s'\<in>set (star_greedy is_space cs). \<not> stop_word_at s'" by (rule assms(3))
  then have "\<forall>s'\<in>set (star_greedy is_space cs).
      \<not> prefix ''entre'' s' \<and> \<not> prefix ''dans'' s' \<and> \<not> prefix [CHR 0xE0] s' \<and> \<not> prefix ''pour'' s'"
    by (simp add: stop_word_at_def)
  then show ?thesis using assms(1,2) True
    unfolding stop_re_def matches.simps(9)
    by (simp add: space_lit_none)
qed

lemma stop_inside:
  assumes x: "x = a @ c # b"
    and dot: "CHR ''.'' \<notin> set x" and nl: "CHR 0x0A \<notin> set x"
    and last: "\<not> is_space (last x)"
    and words: "\<forall>a c b. x = a @ c # b \<and> is_space c \<longrightarrow> \<not> stop_word_at b"
  shows "matches stop_re (g, c # b @ CHR '' '' # z) = []"
proof -
  have c1: "c \<noteq> CHR ''.''" and c2: "c \<noteq> CHR 0x0A" using x dot nl by auto
  have "\<forall>s'\<in>set (star_greedy is_space (b @ CHR '' '' # z)). \<not> stop_word_at s'" if sp: "is_space c"
  proof (rule greedy_no_stop)
    show ne: "b \<noteq> []" using x last sp by (cases b) auto
    show "\<not> is_space (List.last b)" using x last ne by simp
    have "\<not> stop_word_at b" using words x sp by blast
    then show "\<not> stop_word_at (b @ CHR '' '' # z)" by (rule stop_word_straddle)
    show "\<forall>b1 c' b2. b = b1 @ c' # b2 \<and> is_space c' \<longrightarrow> \<not> stop_word_at (b2 @ CHR '' '' # z)"
    proof (intro allI impI)
      fix b1 c' b2 assume h: "b = b1 @ c' # b2 \<and> is_space c'"
      then have "x = (a @ c # b1) @ c' # b2" using x by simp
      then have "\<not> stop_word_at b2" using words h by blast
      then show "\<not> stop_word_at (b2 @ CHR '' '' # z)" by (rule stop_word_straddle)
    qed
  qed
  then show ?thesis
    using c1 c2 stop_none[of c "b @ CHR '' '' # z" g] by simp
qed

lemma star_lazy_Cons: "\<exists>t. star_lazy P u = u # t"
  by (cases u) auto

lemma hd_concat_first: "f x \<noteq> [] \<Longrightarrow> hd (concat (map f (x # xs))) = hd (f x)"
  by simp

lemma tail_match:
  assumes x: "x = c0 # x'" and c0: "\<not> is_space c0"
    and nl: "CHR 0x0A \<notin> set x"
    and inside: "\<And>a1 c a2 g'. x' = a1 @ c # a2 \<Longrightarrow> matches stop_re (g', c # a2 @ z) = []"
    and stopz: "\<And>g'. matches stop_re (g', z) \<noteq> [] \<and> hd (matches stop_re (g', z)) = (g', z1)"
  shows "matches tail_re (g, CHR '' '' # x @ z) \<noteq> []
       \<and> hd (matches tail_re (g, CHR '' '' # x @ z)) = (g @ [x], z1)"
proof -
  let ?y = "x @ z"
  let ?f = "\<lambda>s'. matches stop_re (g @ [take (length ?y - length s') ?y], s')"
  have sp: "is_space (CHR '' '')" by (simp add: is_space_def)
  have 1: "matches (Plus is_space) (g, CHR '' '' # x @ z) = [(g, ?y)]"
    using sp c0 x by simp
  have nn: "\<forall>c\<in>set x'. not_newline c" and nn0: "not_newline c0"
    using nl x by (auto simp: not_newline_def)
  have 2: "matches (Grp (PlusLazy not_newline)) (g, ?y)
             = map (\<lambda>s'. (g @ [take (length ?y - length s') ?y], s')) (star_lazy not_newline (x' @ z))"
    using nn0 x by (simp add: comp_def)
  have 3: "matches (Seq (Grp (PlusLazy not_newline)) stop_re) (g, ?y)
             = concat (map ?f (star_lazy not_newline (x' @ z)))"
    unfolding matches.simps(8) 2 by (simp add: comp_def)
  have 4: "concat (map ?f (star_lazy not_newline (x' @ z))) = concat (map ?f (star_lazy not_newline z))"
  proof (rule star_lazy_skip[OF nn])
    show "\<forall>a1 c a2. x' = a1 @ c # a2 \<longrightarrow> ?f (c # a2 @ z) = []"
      using inside by blast
  qed
  obtain t where 5: "star_lazy not_newline z = z # t" using star_lazy_Cons by blast
  have 6: "?f z = matches stop_re (g @ [x], z)" by simp
  have 7: "matches tail_re (g, CHR '' '' # x @ z) = ?f z @ concat (map ?f t)"
    unfolding tail_re_def matches.simps(8)[of "Plus is_space"] 1
    using 3 4 5 by simp
  show ?thesis
    unfolding 7 6 using stopz[of "g @ [x]"] by (simp add: hd_append)
qed

lemma stop_at_entre:
  "matches stop_re (g, CHR '' '' # ''entre 10 et 50'' @ e) \<noteq> []
   \<and> hd (matches stop_re (g, CHR '' '' # ''entre 10 et 50'' @ e)) = (g, '' 10 et 50'' @ e)"
  by (simp add: stop_re_def is_space_def)

lemma cherchons_match:
  assumes "matches tail_re ([], CHR '' '' # y) \<noteq> []"
    and "hd (matches tail_re ([], CHR '' '' # y)) = (gs, r)"
  shows "\<exists>w. match_at cherchons_re (''cherchons '' @ y) = Some \<lparr>whole = w, groups = gs, rest = r\<rparr>"
proof -
  have "matches cherchons_re ([], ''cherchons '' @ y)
          = matches tail_re ([], CHR '' '' # y) @ matches tail_re ([], CHR ''s'' # CHR '' '' # y)"
    by (simp add: cherchons_re_def)
  then obtain t where "matches cherchons_re ([], ''cherchons '' @ y) = (gs, r) # t"
    using assms by (cases "matches tail_re ([], CHR '' '' # y)") auto
  then show ?thesis by (simp add: match_at_def)
qed

lemma budget_match:
  assumes "e = [] \<or> \<not> is_digit (hd e)"
  shows "match_at budget_re (''entre 10 et 50'' @ e)
           = Some \<lparr>whole = ''entre 10 et 50'', groups = [''10'', ''50''], rest = e\<rparr>"
proof -
  have se: "star_greedy is_digit e = [e]" using assms by (rule star_greedy_stop)
  show ?thesis
    by (simp add: match_at_def budget_re_def is_space_def is_digit_def se)
qed

lemma no_early_occurrence:
  assumes "\<forall>a b. L = a @ w @ b \<longrightarrow> n \<le> length a" and "i < n" and "i \<le> length L"
  shows "\<not> prefix w (drop i L)"
proof
  assume "prefix w (drop i L)"
  then obtain b where "drop i L = w @ b" by (auto simp: prefix_def)
  then have "L = take i L @ w @ b" by (metis append_take_drop_id)
  then have "n \<le> length (take i L)" using assms(1) by blast
  then show False using assms(2,3) by simp
qed

lemma strip_id: "x \<noteq> [] \<Longrightarrow> \<not> is_space (hd x) \<Longrightarrow> \<not> is_space (last x) \<Longrightarrow> strip x = x"
proof -
  assume ne: "x \<noteq> []" and h: "\<not> is_space (hd x)" and l: "\<not> is_space (last x)"
  have 1: "dropWhile is_space x = x" using ne h by (cases x) auto
  have r: "rev x = last x # rev (butlast x)" using ne by (cases x rule: rev_cases) auto
  have 2: "dropWhile is_space (rev x) = rev x" by (subst (1 2) r) (simp add: l)
  show ?thesis by (simp add: strip_def 1 2)
qed

lemma float_digits_10_50: "float_digits ''10'' = 10" "float_digits ''50'' = 50"
  by code_simp+

lemma search_patterns_Cons: "\<exists>ps. search_patterns = cherchons_re # ps"
  by (simp add: search_patterns_def)

lemma re_search_here: "u \<noteq> [] \<Longrightarrow> match_at r u = Some mt \<Longrightarrow> re_search r u = Some mt"
  by (cases u) auto

lemma cherchons_search:
  assumes L: "L = p @ ''cherchons '' @ x @ '' entre 10 et 50'' @ e"
    and H1: "\<forall>a b. L = a @ ''cherchon'' @ b \<longrightarrow> length p \<le> length a"
    and ne: "x \<noteq> []" and hd: "\<not> is_space (hd x)" and last: "\<not> is_space (last x)"
    and dot: "CHR ''.'' \<notin> set x" and nl: "CHR 0x0A \<notin> set x"
    and words: "\<forall>a c b. x = a @ c # b \<and> is_space c \<longrightarrow> \<not> stop_word_at b"
  shows "\<exists>w. re_search cherchons_re L
            = Some \<lparr>whole = w, groups = [x], rest = '' 10 et 50'' @ e\<rparr>"
proof -
  let ?z = "CHR '' '' # ''entre 10 et 50'' @ e"
  let ?u = "''cherchons '' @ x @ ?z"
  have Lu: "L = p @ ?u" using L by simp
  have "\<forall>i<length p. match_at cherchons_re (drop i (p @ ?u)) = None"
  proof (intro allI impI)
    fix i assume i: "i < length p"
    then have "i \<le> length L" using Lu by simp
    with H1 i have "\<not> prefix ''cherchon'' (drop i L)" by (rule no_early_occurrence)
    then show "match_at cherchons_re (drop i (p @ ?u)) = None"
      unfolding cherchons_re_def Lu by (rule match_at_Lit_fail)
  qed
  then have 1: "re_search cherchons_re L = re_search cherchons_re ?u"
    unfolding Lu by (rule search_skip)
  obtain c0 x' where x: "x = c0 # x'" using ne by (cases x) auto
  have c0: "\<not> is_space c0" using hd x by simp
  have t: "matches tail_re ([], CHR '' '' # x @ ?z) \<noteq> []
       \<and> hd (matches tail_re ([], CHR '' '' # x @ ?z)) = ([] @ [x], '' 10 et 50'' @ e)"
  proof (rule tail_match[OF x c0 nl])
    fix a1 c a2 g' assume "x' = a1 @ c # a2"
    then have "x = (c0 # a1) @ c # a2" using x by simp
    then show "matches stop_re (g', c # a2 @ ?z) = []"
      using dot nl last words by (rule stop_inside)
  next
    fix g'
    show "matches stop_re (g', ?z) \<noteq> [] \<and> hd (matches stop_re (g', ?z)) = (g', '' 10 et 50'' @ e)"
      by (rule stop_at_entre)
  qed
  then obtain w where "match_at cherchons_re (''cherchons '' @ (x @ ?z))
      = Some \<lparr>whole = w, groups = [x], rest = '' 10 et 50'' @ e\<rparr>"
    using cherchons_match[of "x @ ?z" "[x]" "'' 10 et 50'' @ e"] by auto
  then have "re_search cherchons_re ?u = Some \<lparr>whole = w, groups = [x], rest = '' 10 et 50'' @ e\<rparr>"
    by (intro re_search_here) simp_all
  then show ?thesis using 1 by simp
qed

lemma budget_search:
  assumes L: "L = p @ ''cherchons '' @ x @ '' entre 10 et 50'' @ e"
    and H3: "\<forall>a b. L = a @ ''entre'' @ b \<longrightarrow> length p + length x + 11 \<le> length a"
    and e: "e = [] \<or> \<not> is_digit (hd e)"
  shows "re_search budget_re L
           = Some \<lparr>whole = ''entre 10 et 50'', groups = [''10'', ''50''], rest = e\<rparr>"
proof -
  let ?q = "p @ ''cherchons '' @ x @ '' ''"
  let ?u = "''entre 10 et 50'' @ e"
  have Lu: "L = ?q @ ?u" using L by simp
  have len: "length ?q = length p + length x + 11" by simp
  have "\<forall>i<length ?q. match_at budget_re (drop i (?q @ ?u)) = None"
  proof (intro allI impI)
    fix i assume "i < length ?q"
    then have i: "i < length p + length x + 11" using len by simp
    then have "i \<le> length L" using Lu by simp
    with H3 i have "\<not> prefix ''entre'' (drop i L)" by (rule no_early_occurrence)
    then show "match_at budget_re (drop i (?q @ ?u)) = None"
      unfolding budget_re_def Lu by (rule match_at_Lit_fail)
  qed
  then have "re_search budget_re L = re_search budget_re ?u"
    unfolding Lu by (rule search_skip)
  moreover have "re_search budget_re ?u
      = Some \<lparr>whole = ''entre 10 et 50'', groups = [''10'', ''50''], rest = e\<rparr>"
    using budget_match[OF e] by (intro re_search_here) simp_all
  ultimately show ?thesis by simp
qed

lemma first_intent_None: "\<forall>pat\<in>set ps. re_search pat (lower t) = None \<Longrightarrow> first_intent ps t = None"
  by (induction ps) auto

lemma first_intent_first:
  "(\<forall>pat\<in>set pre. re_search pat (lower t) = None) \<Longrightarrow> re_search pat (lower t) = Some mt
   \<Longrightarrow> first_intent (pre @ pat # post) t
       = Some \<lparr>query = strip (group mt 1),
               min_price = (case re_search budget_re (lower t) of
                              Some b \<Rightarrow> float_digits (group b 1) | None \<Rightarrow> 0),
               max_price = (case re_search budget_re (lower t) of
                              Some b \<Rightarrow> float_digits (group b 2) | None \<Rightarrow> 1000)\<rparr>"
  by (induction pre) (auto simp: Let_def)

lemma occurrence_check:
  assumes "\<forall>i<n. \<not> prefix w (drop i L)"
  shows "\<forall>a b. L = a @ w @ b \<longrightarrow> n \<le> length a"
proof (intro allI impI)
  fix a b assume L: "L = a @ w @ b"
  show "n \<le> length a"
  proof (rule ccontr)
    assume "\<not> n \<le> length a"
    then have "\<not> prefix w (drop (length a) L)" using assms by simp
    then show False using L by simp
  qed
qed

lemma stop_word_check:
  "no_stop_after_space x \<Longrightarrow> \<forall>a c b. x = a @ c # b \<and> is_space c \<longrightarrow> \<not> stop_word_at b"
proof (induction x)
  case Nil
  then show ?case by simp
next
  case (Cons d x)
  show ?case
  proof (intro allI impI)
    fix a c b assume h: "d # x = a @ c # b \<and> is_space c"
    show "\<not> stop_word_at b"
    proof (cases a)
      case Nil
      then show ?thesis using h Cons.prems by auto
    next
      case (Cons d' a')
      then have "x = a' @ c # b" using h by simp
      moreover have "no_stop_after_space x" using Cons.prems by simp
      ultimately show ?thesis using Cons.IH h by blast
    qed
  qed
qed

text \<open>
  Claim C3, as amended. \<open>L\<close> is the text of the last message in lower case.
  \<^item> Let \<open>L\<close> read \<open>p\<close>, \<open>cherchons\<close>, a space, \<open>x\<close>, \<open> entre 10 et 50\<close>, \<open>e\<close>, where
    no \<open>cherchon\<close> begins inside \<open>p\<close> and no \<open>entre\<close> begins before the one shown,
    \<open>x\<close> is not empty, neither begins nor ends with white space, holds no full stop and
    no line feed, no white space of \<open>x\<close> is followed by one of the words \<open>entre\<close>,
    \<open>dans\<close>, a-grave, \<open>pour\<close>, and \<open>e\<close> does not begin with a digit. Then the result
    is the query \<open>x\<close> with the prices 10 and 50.
  \<^item> When some pattern matches and the budget pattern does not, the result has the prices
    0 and 1000.
  \<^item> When no pattern matches, the result is \<open>None\<close>.
  \<^item> The query comes from the first pattern of the list that matches, whatever the later
    patterns do.
\<close>

theorem extract_search_intent_cases:
  assumes "conversation \<noteq> []" and "lower (content_of (last conversation)) = L"
  shows
   "(L = p @ ''cherchons '' @ x @ '' entre 10 et 50'' @ e
       \<and> (\<forall>a b. L = a @ ''cherchon'' @ b \<longrightarrow> length p \<le> length a)
       \<and> (\<forall>a b. L = a @ ''entre'' @ b \<longrightarrow> length p + length x + 11 \<le> length a)
       \<and> x \<noteq> [] \<and> \<not> is_space (hd x) \<and> \<not> is_space (last x)
       \<and> CHR ''.'' \<notin> set x \<and> CHR 0x0A \<notin> set x
       \<and> (\<forall>a c b. x = a @ c # b \<and> is_space c \<longrightarrow> \<not> stop_word_at b)
       \<and> (e = [] \<or> \<not> is_digit (hd e))
      \<longrightarrow> extract_search_intent conversation
            = Some \<lparr>query = x, min_price = 10, max_price = 50\<rparr>)
    \<and> ((\<exists>pat\<in>set search_patterns. re_search pat L \<noteq> None) \<and> re_search budget_re L = None
      \<longrightarrow> (\<exists>qr. extract_search_intent conversation
                  = Some \<lparr>query = qr, min_price = 0, max_price = 1000\<rparr>))
    \<and> ((\<forall>pat\<in>set search_patterns. re_search pat L = None)
      \<longrightarrow> extract_search_intent conversation = None)
    \<and> (search_patterns = pre @ pat # post \<and> (\<forall>pat'\<in>set pre. re_search pat' L = None)
       \<and> re_search pat L = Some mt
      \<longrightarrow> (\<exists>lo hi. extract_search_intent conversation
                    = Some \<lparr>query = strip (group mt 1), min_price = lo, max_price = hi\<rparr>))"
proof (intro conjI impI)
  let ?t = "content_of (last conversation)"
  have E: "extract_search_intent conversation = first_intent search_patterns ?t"
    using assms(1) by (simp add: extract_search_intent_def)
  {
    assume h: "L = p @ ''cherchons '' @ x @ '' entre 10 et 50'' @ e
       \<and> (\<forall>a b. L = a @ ''cherchon'' @ b \<longrightarrow> length p \<le> length a)
       \<and> (\<forall>a b. L = a @ ''entre'' @ b \<longrightarrow> length p + length x + 11 \<le> length a)
       \<and> x \<noteq> [] \<and> \<not> is_space (hd x) \<and> \<not> is_space (last x)
       \<and> CHR ''.'' \<notin> set x \<and> CHR 0x0A \<notin> set x
       \<and> (\<forall>a c b. x = a @ c # b \<and> is_space c \<longrightarrow> \<not> stop_word_at b)
       \<and> (e = [] \<or> \<not> is_digit (hd e))"
    then obtain w where m1: "re_search cherchons_re L
            = Some \<lparr>whole = w, groups = [x], rest = '' 10 et 50'' @ e\<rparr>"
      using cherchons_search[of L p x e] by blast
    have m2: "re_search budget_re L
           = Some \<lparr>whole = ''entre 10 et 50'', groups = [''10'', ''50''], rest = e\<rparr>"
      using h budget_search[of L p x e] by blast
    have sx: "strip x = x" using h by (simp add: strip_id)
    have "first_intent ([] @ cherchons_re # [recherche_re, regardons_re]) ?t
            = Some \<lparr>query = x, min_price = 10, max_price = 50\<rparr>"
      by (subst first_intent_first[where mt = "\<lparr>whole = w, groups = [x], rest = '' 10 et 50'' @ e\<rparr>"])
         (simp_all add: assms(2) m1 m2 group_def sx float_digits_10_50)
    then show "extract_search_intent conversation
            = Some \<lparr>query = x, min_price = 10, max_price = 50\<rparr>"
      by (simp add: E search_patterns_def)
  }
  {
    assume h: "(\<exists>pat\<in>set search_patterns. re_search pat L \<noteq> None) \<and> re_search budget_re L = None"
    then obtain pre' pat' post' where d: "search_patterns = pre' @ pat' # post'"
        "re_search pat' L \<noteq> None" "\<forall>q\<in>set pre'. \<not> re_search q L \<noteq> None"
      using split_list_first_prop[of search_patterns "\<lambda>q. re_search q L \<noteq> None"] by blast
    then obtain mt' where "re_search pat' L = Some mt'" by auto
    then have "first_intent (pre' @ pat' # post') ?t
            = Some \<lparr>query = strip (group mt' 1), min_price = 0, max_price = 1000\<rparr>"
      using d(3) h by (subst first_intent_first[where mt = mt']) (simp_all add: assms(2))
    then show "\<exists>qr. extract_search_intent conversation
                  = Some \<lparr>query = qr, min_price = 0, max_price = 1000\<rparr>"
      using d(1) E by auto
  }
  {
    assume "\<forall>pat\<in>set search_patterns. re_search pat L = None"
    then show "extract_search_intent conversation = None"
      using E first_intent_None[of search_patterns ?t] assms(2) by simp
  }
  {
    assume h: "search_patterns = pre @ pat # post \<and> (\<forall>pat'\<in>set pre. re_search pat' L = None)
       \<and> re_search pat L = Some mt"
    then have "\<exists>lo hi. first_intent (pre @ pat # post) ?t
            = Some \<lparr>query = strip (group mt 1), min_price = lo, max_price = hi\<rparr>"
      by (subst first_intent_first[where mt = mt]) (simp_all add: assms(2))
    then show "\<exists>lo hi. extract_search_intent conversation
                    = Some \<lparr>query = strip (group mt 1), min_price = lo, max_price = hi\<rparr>"
      using h E by simp
  }
qed

theorem extract_search_intent_cases_witness:
  "extract_search_intent
      [[''role'' \<mapsto> ''assistant'',
        ''content'' \<mapsto> ''Parfait ! Cherchons un casque audio entre 10 et 50 euros.'']]
     = Some \<lparr>query = ''un casque audio'', min_price = 10, max_price = 50\<rparr>
   \<and> (\<exists>qr. extract_search_intent [[''content'' \<mapsto> ''cherchons un casque audio'']]
          = Some \<lparr>query = qr, min_price = 0, max_price = 1000\<rparr>)
   \<and> extract_search_intent [[''content'' \<mapsto> ''bonjour'']] = None
   \<and> (\<exists>lo hi. extract_search_intent [[''content'' \<mapsto> ''recherche a. cherchons b'']]
          = Some \<lparr>query = ''b'', min_price = lo, max_price = hi\<rparr>)
   \<and> (\<exists>lo hi. extract_search_intent [[''content'' \<mapsto> ''Recherche un casque'']]
          = Some \<lparr>query = ''un casque'', min_price = lo, max_price = hi\<rparr>)"
proof -
  let ?c1 = "[[''role'' \<mapsto> ''assistant'',
        ''content'' \<mapsto> ''Parfait ! Cherchons un casque audio entre 10 et 50 euros.'']]"
  let ?L1 = "''parfait ! cherchons un casque audio entre 10 et 50 euros.''"
  have n1: "?c1 \<noteq> []" by simp
  have l1: "lower (content_of (last ?c1)) = ?L1" by code_simp
  have d1: "?L1 = ''parfait ! '' @ ''cherchons '' @ ''un casque audio'' @ '' entre 10 et 50''
                   @ '' euros.''" by simp
  have o1: "\<forall>a b. ?L1 = a @ ''cherchon'' @ b \<longrightarrow> length ''parfait ! '' \<le> length a"
    by (rule occurrence_check) code_simp
  have o2: "\<forall>a b. ?L1 = a @ ''entre'' @ b
              \<longrightarrow> length ''parfait ! '' + length ''un casque audio'' + 11 \<le> length a"
    by (rule occurrence_check) code_simp
  have x1: "''un casque audio'' \<noteq> [] \<and> \<not> is_space (hd ''un casque audio'')
      \<and> \<not> is_space (last ''un casque audio'') \<and> CHR ''.'' \<notin> set ''un casque audio''
      \<and> CHR 0x0A \<notin> set ''un casque audio''" by code_simp
  have w1: "\<forall>a c b. ''un casque audio'' = a @ c # b \<and> is_space c \<longrightarrow> \<not> stop_word_at b"
  proof (rule stop_word_check)
    show "no_stop_after_space ''un casque audio''" by code_simp
  qed
  have e1: "'' euros.'' = [] \<or> \<not> is_digit (hd '' euros.'')" by code_simp
  from extract_search_intent_cases[OF n1 l1, of "''parfait ! ''" "''un casque audio''" "'' euros.''"]
    d1 o1 o2 x1 w1 e1
  have 1: "extract_search_intent ?c1
     = Some \<lparr>query = ''un casque audio'', min_price = 10, max_price = 50\<rparr>" by blast

  let ?c2 = "[[''content'' \<mapsto> ''cherchons un casque audio'']] :: turn list"
  have n2: "?c2 \<noteq> []" by simp
  have l2: "lower (content_of (last ?c2)) = ''cherchons un casque audio''" by code_simp
  have t2: "(\<exists>pat\<in>set search_patterns. re_search pat ''cherchons un casque audio'' \<noteq> None)
            \<and> re_search budget_re ''cherchons un casque audio'' = None" by code_simp
  from extract_search_intent_cases[OF n2 l2] t2
  have 2: "\<exists>qr. extract_search_intent ?c2 = Some \<lparr>query = qr, min_price = 0, max_price = 1000\<rparr>"
    by blast

  let ?c3 = "[[''content'' \<mapsto> ''bonjour'']] :: turn list"
  have n3: "?c3 \<noteq> []" by simp
  have l3: "lower (content_of (last ?c3)) = ''bonjour''" by code_simp
  have t3: "\<forall>pat\<in>set search_patterns. re_search pat ''bonjour'' = None" by code_simp
  from extract_search_intent_cases[OF n3 l3] t3
  have 3: "extract_search_intent ?c3 = None" by blast

  let ?c4 = "[[''content'' \<mapsto> ''recherche a. cherchons b'']] :: turn list"
  have n4: "?c4 \<noteq> []" by simp
  have l4: "lower (content_of (last ?c4)) = ''recherche a. cherchons b''" by code_simp
  have t4: "search_patterns = [] @ cherchons_re # [recherche_re, regardons_re]
      \<and> (\<forall>pat'\<in>set []. re_search pat' ''recherche a. cherchons b'' = None)
      \<and> re_search cherchons_re ''recherche a. cherchons b''
          = Some \<lparr>whole = ''cherchons b'', groups = [''b''], rest = []\<rparr>"
    by (simp add: search_patterns_def) code_simp
  have s4: "strip (group \<lparr>whole = ''cherchons b'', groups = [''b''], rest = []\<rparr> 1) = ''b''"
    by code_simp
  from extract_search_intent_cases[OF n4 l4, of _ _ _ "[]" cherchons_re
      "[recherche_re, regardons_re]" "\<lparr>whole = ''cherchons b'', groups = [''b''], rest = []\<rparr>"] t4
  have 4: "\<exists>lo hi. extract_search_intent ?c4 = Some \<lparr>query = ''b'', min_price = lo, max_price = hi\<rparr>"
    unfolding s4 by blast

  let ?c5 = "[[''content'' \<mapsto> ''Recherche un casque'']] :: turn list"
  have n5: "?c5 \<noteq> []" by simp
  have l5: "lower (content_of (last ?c5)) = ''recherche un casque''" by code_simp
  have t5: "search_patterns = [cherchons_re] @ recherche_re # [regardons_re]
      \<and> (\<forall>pat'\<in>set [cherchons_re]. re_search pat' ''recherche un casque'' = None)
      \<and> re_search recherche_re ''recherche un casque''
          = Some \<lparr>whole = ''recherche un casque'', groups = [''un casque''], rest = []\<rparr>"
    by (simp add: search_patterns_def) code_simp
  have s5: "strip (group \<lparr>whole = ''recherche un casque'', groups = [''un casque''], rest = []\<rparr> 1)
            = ''un casque''"
    by code_simp
  from extract_search_intent_cases[OF n5 l5, of _ _ _ "[cherchons_re]" recherche_re
      "[regardons_re]" "\<lparr>whole = ''recherche un casque'', groups = [''un casque''], rest = []\<rparr>"] t5
  have 5: "\<exists>lo hi. extract_search_intent ?c5
             = Some \<lparr>query = ''un casque'', min_price = lo, max_price = hi\<rparr>"
    unfolding s5 by blast
  from 1 2 3 4 5 show ?thesis by blast
qed

text \<open>
  Claim C3 as stated fails. A text can contain \<open>cherchons X entre 10 et 50\<close> and give
  another query or another price: with \<open>X\<close> the words \<open>un casque pour le sport\<close> the
  query stops before \<open>pour\<close>, and in \<open>cherchons un casque entre 10 et 500\<close>, which
  contains \<open>cherchons un casque entre 10 et 50\<close>, the upper price is 500.
\<close>

theorem extract_search_intent_counterexample:
  "extract_search_intent [[''content'' \<mapsto> ''cherchons un casque pour le sport entre 10 et 50'']]
     = Some \<lparr>query = ''un casque'', min_price = 10, max_price = 50\<rparr>
   \<and> extract_search_intent [[''content'' \<mapsto> ''cherchons un casque pour le sport entre 10 et 50'']]
     \<noteq> Some \<lparr>query = ''un casque pour le sport'', min_price = 10, max_price = 50\<rparr>
   \<and> extract_search_intent [[''content'' \<mapsto> ''cherchons un casque entre 10 et 500'']]
     = Some \<lparr>query = ''un casque'', min_price = 10, max_price = 500\<rparr>
   \<and> extract_search_intent [[''content'' \<mapsto> ''cherchons un casque entre 10 et 500'']]
     \<noteq> Some \<lparr>query = ''un casque'', min_price = 10, max_price = 50\<rparr>"
  by code_simp

section \<open>Properties of the product search\<close>


















lemma collect_out: "\<not> in_band lo hi p \<Longrightarrow> collect lo hi (p # ps) = collect lo hi ps"
  by (auto simp: in_band_def Let_def)

lemma collect_in:
  "in_band lo hi p \<Longrightarrow> collect lo hi (p # ps)
     = (case make_product p (price_of p) of
          Inl e \<Rightarrow> Inl e
        | Inr x \<Rightarrow> (case collect lo hi ps of Inl e \<Rightarrow> Inl e | Inr xs \<Rightarrow> Inr (x # xs)))"
  by (simp add: in_band_def Let_def)


lemma collect_raises:
  assumes "in_band lo hi p" and "make_product p (price_of p) = Inl e"
    and "\<forall>q\<in>set pre. \<not> in_band lo hi q"
  shows "collect lo hi (pre @ p # post) = Inl e"
  using assms by (induction pre) (simp_all add: collect_in collect_out del: collect.simps)


text \<open>The sample response, run through the whole function.\<close>

lemma canned_response_ranked:
  "map (\<lambda>x. (title x, price x, rating x, reviews_count x)) (snd (fetch_amazon_products keep_order
       (\<lambda>_. Response 200 (Some \<lparr>organic_results = Some canned_results\<rparr>))
       ''key'' ''casque'' 10 50 4))
    = [(''C'', 71 / 2, Fin (9 / 2), 3100), (''A'', 1999 / 100, Fin (9 / 2), 1204),
       (''E'', 499 / 10, Fin 0, 0)]"
  by code_simp




lemma price_of_sample: "price_of (sample_result t pr r c) = extract_price pr"
  by (simp add: price_of_def sample_result_def get_or_def)

lemma parse_reviews_long:
  assumes "is_digit c" and "n > int_max_str_digits"
  shows "parse_reviews (Str (replicate n c)) = Inl ValueError"
proof -
  have "re_sub_cls (\<lambda>c. \<not> is_digit c) [] (replicate n c) = replicate n c"
    using assms(1) by (simp add: re_sub_cls_filter)
  moreover have "replicate n c \<noteq> []" using assms(2) by auto
  ultimately show ?thesis using assms(2) by (simp add: parse_reviews_def)
qed

text \<open>
  What holds of claim C5: an absent rating, a rating without a token and a rating whose
  first token \<open>float\<close> rejects give the rating 0; an absent review count and one without
  a digit give the review count 0.
\<close>

lemma malformed_fields_default:
  "(r_rating p = None \<longrightarrow> parse_rating (get_or (r_rating p) (Num 0)) = Fin 0)
   \<and> (r_rating p = Some (Str t) \<and> py_split t = []
        \<longrightarrow> parse_rating (get_or (r_rating p) (Num 0)) = Fin 0)
   \<and> (r_rating p = Some (Str t) \<and> py_split t = tok # toks \<and> float_str tok = None
        \<longrightarrow> parse_rating (get_or (r_rating p) (Num 0)) = Fin 0)
   \<and> (r_ratings_total p = None \<longrightarrow> parse_reviews (get_or (r_ratings_total p) (Num 0)) = Inr 0)
   \<and> (r_ratings_total p = Some (Str u) \<and> \<not> (\<exists>c\<in>set u. is_digit c)
        \<longrightarrow> parse_reviews (get_or (r_ratings_total p) (Num 0)) = Inr 0)"
proof (intro conjI impI)
  assume "r_ratings_total p = Some (Str u) \<and> \<not> (\<exists>c\<in>set u. is_digit c)"
  then have "r_ratings_total p = Some (Str u)" and "filter is_digit u = []"
    by (auto simp: filter_empty_conv)
  then show "parse_reviews (get_or (r_ratings_total p) (Num 0)) = Inr 0"
    by (simp add: parse_reviews_def get_or_def re_sub_cls_filter)
qed (auto simp: parse_rating_def parse_reviews_def get_or_def)

text \<open>
  Claim C5, at the input where the code breaks it. The review count of
  \<open>long_count_result\<close> is a string of 4301 digits. \<open>int\<close> at line 127 raises
  \<open>ValueError\<close> for it, and no \<open>try\<close> stands around that line as one does around the
  rating: the search ends in the outer \<open>except\<close>, with an error shown and no product.
\<close>

theorem long_review_count_raises:
  "fetch_amazon_products keep_order
      (\<lambda>_. Response 200 (Some \<lparr>organic_results = Some [long_count_result]\<rparr>))
      ''key'' ''casque'' 0 1000 4
     = ([SearchError ValueError], [])"
proof -
  have pr: "price_of long_count_result = 20"
    unfolding long_count_result_def price_of_sample by code_simp
  have d: "is_digit (CHR ''1'')" by code_simp
  have "parse_reviews (Str (replicate 4301 (CHR ''1''))) = Inl ValueError"
    using d by (rule parse_reviews_long) (simp add: int_max_str_digits_def)
  then have "make_product long_count_result 20 = Inl ValueError"
    by (simp add: make_product_def long_count_result_def sample_result_def get_or_def)
  then have "collect 0 1000 [long_count_result] = Inl ValueError"
    by (simp add: pr)
  then show ?thesis
    by (simp add: fetch_amazon_products_def fetch_body_def get_or_def)
qed

text \<open>
  Claim C6. When the request raises, when the status is one that \<open>raise_for_status\<close>
  rejects (400 to 599), or when the body is not JSON, \<open>fetch_amazon_products\<close> returns
  the empty list, beside one message shown to the user; nothing is raised.
\<close>

theorem fetch_failure_empty:
  "(get (request_params serp_key q n) = RequestRaises e
      \<longrightarrow> fetch_amazon_products unordered get serp_key q lo hi n
            = ([SearchError (RequestException e)], []))
   \<and> (get (request_params serp_key q n) = Response st body \<and> 400 \<le> st \<and> st < 600
      \<longrightarrow> fetch_amazon_products unordered get serp_key q lo hi n
            = ([SearchError (HTTPError st)], []))
   \<and> (get (request_params serp_key q n) = Response st None \<and> \<not> (400 \<le> st \<and> st < 600)
      \<longrightarrow> fetch_amazon_products unordered get serp_key q lo hi n
            = ([SearchError JSONDecodeError], []))"
  by (simp add: fetch_amazon_products_def fetch_body_def)

theorem fetch_failure_empty_witness:
  "fetch_amazon_products keep_order (\<lambda>_. RequestRaises ''timeout'') ''key'' ''casque'' 0 1000 4
     = ([SearchError (RequestException ''timeout'')], [])
   \<and> fetch_amazon_products keep_order (\<lambda>_. Response 503 None) ''key'' ''casque'' 0 1000 4
     = ([SearchError (HTTPError 503)], [])
   \<and> fetch_amazon_products keep_order (\<lambda>_. Response 200 None) ''key'' ''casque'' 0 1000 4
     = ([SearchError JSONDecodeError], [])"
  using fetch_failure_empty[where get = "\<lambda>_. RequestRaises ''timeout''" and serp_key = "''key''"
          and q = "''casque''" and n = 4 and e = "''timeout''" and unordered = keep_order
          and lo = 0 and hi = 1000]
    fetch_failure_empty[where get = "\<lambda>_. Response 503 None" and serp_key = "''key''"
          and q = "''casque''" and n = 4 and unordered = keep_order
          and lo = 0 and hi = 1000 and st = 503 and body = None]
    fetch_failure_empty[where get = "\<lambda>_. Response 200 None" and serp_key = "''key''"
          and q = "''casque''" and n = 4 and unordered = keep_order
          and lo = 0 and hi = 1000 and st = 200]
  by simp

section \<open>Properties of the chat\<close>

text \<open>
  Claim C7. When the chat-completion call raises, \<open>chat_with_assistant\<close> returns
  \<open>fallback_message\<close>, one fixed text, whatever the error, the message, the history and
  the context are. The same text is returned when the response has no choice or a choice
  without content.
\<close>

theorem chat_failure_fallback:
  "(create (chat_request_of system_prompt user_message conversation_history user_context)
       = ApiRaises e
      \<longrightarrow> chat_with_assistant system_prompt create user_message conversation_history user_context
            = fallback_message)
   \<and> (create (chat_request_of system_prompt user_message conversation_history user_context)
       = Choices [] 
      \<longrightarrow> chat_with_assistant system_prompt create user_message conversation_history user_context
            = fallback_message)
   \<and> (create (chat_request_of system_prompt user_message conversation_history user_context)
       = Choices (None # cs)
      \<longrightarrow> chat_with_assistant system_prompt create user_message conversation_history user_context
            = fallback_message)"
  by (simp add: chat_with_assistant_def first_content_def)

theorem chat_failure_fallback_witness:
  "chat_with_assistant (\<lambda>_::unit. ustr ''persona'') (\<lambda>_. ApiRaises (ustr ''rate limit''))
       (ustr ''bonjour'') [] () = fallback_message
   \<and> chat_with_assistant (\<lambda>_::unit. ustr ''persona'') (\<lambda>_. ApiRaises (ustr ''timeout''))
       (ustr ''bonjour'') [] () = fallback_message"
  using chat_failure_fallback[of "\<lambda>_. ApiRaises (ustr ''rate limit'')" "\<lambda>_::unit. ustr ''persona''"
          "ustr ''bonjour''" "[]" "()" "ustr ''rate limit''"]
    chat_failure_fallback[of "\<lambda>_. ApiRaises (ustr ''timeout'')" "\<lambda>_::unit. ustr ''persona''"
          "ustr ''bonjour''" "[]" "()" "ustr ''timeout''"]
  by simp

lemma chat_line149_depends_on_error:
  "chat_with_assistant_line149 sp (\<lambda>_. ApiRaises e) um h ctx = technical_message e"
  by (simp add: chat_with_assistant_line149_def)

end
